theory Spec2Isabelle
  imports Main "HOL-Library.Word" "HOL-Library.Char_ord" "HOL-Library.List_Lexorder"
    "HOL-Library.Sublist" "HOL-Library.Multiset"
begin

section \<open>Semantic versions (villagesql/common/semver.cc)\<close>

text \<open>
  \<^verbatim>\<open>unsigned long\<close> is the 64-bit type of the LP64 targets the server is built for.
  Strings are byte strings; \<^verbatim>\<open>std::string\<close> comparison is the lexicographic order on
  unsigned bytes, which is the order of lists over \<^typ>\<open>char\<close>.
\<close>

type_synonym ulong = "64 word"

definition ULONG_MAX :: int where
  "ULONG_MAX = 18446744073709551615"

record Semver =
  major :: ulong
  minor :: ulong
  patch :: ulong
  prerelease :: "string list"
  build_metadata :: "string list"
  valid :: bool

text \<open>The default constructor: the invalid version 0.0.0.\<close>

definition Semver_default :: Semver where
  "Semver_default = \<lparr>major = 0, minor = 0, patch = 0, prerelease = [],
     build_metadata = [], valid = False\<rparr>"

definition is_valid :: "Semver \<Rightarrow> bool" where
  "is_valid v = valid v"

text \<open>\<^verbatim>\<open>std::isdigit\<close> and \<^verbatim>\<open>std::isalnum\<close> in the C locale.\<close>

definition isdigit :: "char \<Rightarrow> bool" where
  "isdigit c = (CHR ''0'' \<le> c \<and> c \<le> CHR ''9'')"

definition isalnum :: "char \<Rightarrow> bool" where
  "isalnum c = (isdigit c \<or> (CHR ''a'' \<le> c \<and> c \<le> CHR ''z'') \<or> (CHR ''A'' \<le> c \<and> c \<le> CHR ''Z''))"

definition is_numeric :: "string \<Rightarrow> bool" where
  "is_numeric str = (if str = [] then False else list_all isdigit str)"

definition is_valid_identifier :: "string \<Rightarrow> bool" where
  "is_valid_identifier ident =
     (if ident = [] then False else list_all (\<lambda>c. isalnum c \<or> c = CHR ''-'') ident)"

text \<open>
  The value of a digit string, as \<^verbatim>\<open>strtoul\<close> and \<^verbatim>\<open>std::stoul\<close> accumulate it in
  base 10. Both are only ever called on strings that passed \<open>is_numeric\<close>.
\<close>

definition digit_val :: "char \<Rightarrow> int" where
  "digit_val c = of_char c - of_char CHR ''0''"

definition decimal_value :: "string \<Rightarrow> int" where
  "decimal_value str = foldl (\<lambda>acc c. acc * 10 + digit_val c) 0 str"

text \<open>\<^verbatim>\<open>strtoul(str, nullptr, 10)\<close>: a value out of range yields \<^verbatim>\<open>ULONG_MAX\<close>.\<close>

definition strtoul :: "string \<Rightarrow> int" where
  "strtoul str = (if decimal_value str > ULONG_MAX then ULONG_MAX else decimal_value str)"

datatype semver_exception = Out_of_range | Buffer_overread

text \<open>\<^verbatim>\<open>std::stoul\<close> throws \<^verbatim>\<open>std::out_of_range\<close> where \<^verbatim>\<open>strtoul\<close> saturates.\<close>

definition stoul :: "string \<Rightarrow> semver_exception + ulong" where
  "stoul str = (if decimal_value str > ULONG_MAX then Inl Out_of_range
                else Inr (of_int (decimal_value str)))"

text \<open>
  The loop that splits the pre-release section. It is entered with the section still
  carrying its leading separator; each round drops the separator, takes the identifier
  up to the next dot, checks it, and continues behind it.
\<close>

function parse_prerelease_ids :: "string \<Rightarrow> string list \<Rightarrow> string + string list" where
  "parse_prerelease_ids prerelease_str acc =
     (if prerelease_str = [] then Inr acc
      else
        let rest = tl prerelease_str;
            identifier = takeWhile (\<lambda>c. c \<noteq> CHR ''.'') rest
        in if \<not> is_valid_identifier identifier then Inl ''Invalid pre-release identifier''
           else if is_numeric identifier \<and> length identifier > 1 \<and> hd identifier = CHR ''0''
             then Inl ''Numeric pre-release identifiers must not have leading zeros''
           else parse_prerelease_ids (drop (length identifier) rest) (acc @ [identifier]))"
  by pat_completeness auto
termination
  by (relation "measure (\<lambda>(s, acc). length s)") auto

function parse_build_ids :: "string \<Rightarrow> string list \<Rightarrow> string + string list" where
  "parse_build_ids build_str acc =
     (if build_str = [] then Inr acc
      else
        let rest = tl build_str;
            identifier = takeWhile (\<lambda>c. c \<noteq> CHR ''.'') rest
        in if \<not> is_valid_identifier identifier then Inl ''Invalid build metadata identifier''
           else parse_build_ids (drop (length identifier) rest) (acc @ [identifier]))"
  by pat_completeness auto
termination
  by (relation "measure (\<lambda>(s, acc). length s)") auto

definition parse_prerelease :: "string \<Rightarrow> string + (string list \<times> string)" where
  "parse_prerelease s =
     (if s \<noteq> [] \<and> hd s = CHR ''-'' then
        let prerelease_str = takeWhile (\<lambda>c. c \<noteq> CHR ''+'') s;
            s' = drop (length prerelease_str) s
        in case parse_prerelease_ids prerelease_str [] of
             Inl e \<Rightarrow> Inl e
           | Inr prerelease_tmp \<Rightarrow>
               if prerelease_tmp = [] then Inl ''Pre-release section cannot be empty''
               else Inr (prerelease_tmp, s')
      else Inr ([], s))"

definition parse_build :: "string \<Rightarrow> string + string list" where
  "parse_build s =
     (if s \<noteq> [] \<and> hd s = CHR ''+'' then
        case parse_build_ids s [] of
          Inl e \<Rightarrow> Inl e
        | Inr build_metadata_tmp \<Rightarrow>
            if build_metadata_tmp = [] then Inl ''Build metadata section cannot be empty''
            else Inr build_metadata_tmp
      else Inr [])"

text \<open>
  \<open>parse\<close> returns the error message on failure (the object is then the reset, invalid
  default) and the parsed version on success.
\<close>

definition parse :: "string \<Rightarrow> string + Semver" where
  "parse s =
     (if s = [] then Inl ''Empty version string''
      else
        let core_version = takeWhile (\<lambda>c. c \<noteq> CHR ''+'' \<and> c \<noteq> CHR ''-'') s;
            s1 = drop (length core_version) s
        in if count_list core_version CHR ''.'' \<noteq> 2
           then Inl ''Invalid core version format, expected MAJOR.MINOR.PATCH''
           else
             let major_str = takeWhile (\<lambda>c. c \<noteq> CHR ''.'') core_version;
                 after_major = drop (length major_str + 1) core_version;
                 minor_str = takeWhile (\<lambda>c. c \<noteq> CHR ''.'') after_major;
                 patch_str = drop (length minor_str + 1) after_major
             in if \<not> is_numeric major_str \<or> \<not> is_numeric minor_str \<or> \<not> is_numeric patch_str
                then Inl ''MAJOR, MINOR, and PATCH must be numeric''
                else if (length major_str > 1 \<and> hd major_str = CHR ''0'') \<or>
                        (length minor_str > 1 \<and> hd minor_str = CHR ''0'') \<or>
                        (length patch_str > 1 \<and> hd patch_str = CHR ''0'')
                then Inl ''Version numbers must not have leading zeros''
                else
                  let major_tmp = strtoul major_str;
                      minor_tmp = strtoul minor_str;
                      patch_tmp = strtoul patch_str
                  in if major_tmp = ULONG_MAX \<or> minor_tmp = ULONG_MAX \<or> patch_tmp = ULONG_MAX
                     then Inl ''Version number out of range''
                     else case parse_prerelease s1 of
                            Inl e \<Rightarrow> Inl e
                          | Inr (prerelease_tmp, s2) \<Rightarrow>
                              (case parse_build s2 of
                                 Inl e \<Rightarrow> Inl e
                               | Inr build_metadata_tmp \<Rightarrow>
                                   Inr \<lparr>major = of_int major_tmp, minor = of_int minor_tmp,
                                        patch = of_int patch_tmp, prerelease = prerelease_tmp,
                                        build_metadata = build_metadata_tmp, valid = True\<rparr>))"

definition from_string :: "string \<Rightarrow> Semver" where
  "from_string version_str =
     (case parse version_str of Inl e \<Rightarrow> Semver_default | Inr ver \<Rightarrow> ver)"

definition bad_prerelease_id :: "string \<Rightarrow> bool" where
  "bad_prerelease_id ident =
     (\<not> is_valid_identifier ident \<or> (is_numeric ident \<and> length ident > 1 \<and> hd ident = CHR ''0''))"

definition from_components ::
  "ulong \<Rightarrow> ulong \<Rightarrow> ulong \<Rightarrow> string list \<Rightarrow> string list \<Rightarrow> Semver" where
  "from_components ma mi pa pre build =
     (if list_ex bad_prerelease_id pre then Semver_default
      else if list_ex (\<lambda>ident. \<not> is_valid_identifier ident) build then Semver_default
      else \<lparr>major = ma, minor = mi, patch = pa, prerelease = pre,
            build_metadata = build, valid = True\<rparr>)"


text \<open>
  \<^verbatim>\<open>printf("%lu")\<close>: the decimal digits of a number, most significant first.
\<close>

definition digit_char :: "int \<Rightarrow> char" where
  "digit_char d = char_of (of_char CHR ''0'' + d)"

function format_lu :: "int \<Rightarrow> string" where
  "format_lu n = (if n < 10 then [digit_char n] else format_lu (n div 10) @ [digit_char (n mod 10)])"
  by pat_completeness auto
termination
  by (relation "measure nat") auto

text \<open>
  \<open>to_string\<close> formats the core into a 33-byte stack buffer. \<^verbatim>\<open>snprintf\<close> writes at most
  32 characters and the terminating NUL, and returns the length \<open>n\<close> the complete text
  would have; the string is then built from \<open>n\<close> bytes of the buffer. With \<open>n = 33\<close> the
  NUL is copied as the last byte; with \<open>n > 33\<close> the read runs past the buffer, which has
  no defined result. The capacity reservation that follows does not change the value.
\<close>

definition to_string_core :: "Semver \<Rightarrow> semver_exception + string" where
  "to_string_core v =
     (let sz = 33;
          full = format_lu (uint (major v)) @ ''.'' @ format_lu (uint (minor v)) @ ''.'' @
                 format_lu (uint (patch v));
          n = length full
      in if n < sz then Inr full
         else if n = sz then Inr (take (sz - 1) full @ [char_of (0::int)])
         else Inl Buffer_overread)"

fun append_identifiers :: "char \<Rightarrow> string list \<Rightarrow> string" where
  "append_identifiers first [] = []"
| "append_identifiers first (ident # ids) =
     first # ident @ append_identifiers CHR ''.'' ids"

definition to_string :: "Semver \<Rightarrow> semver_exception + string" where
  "to_string v =
     (if \<not> valid v then Inr []
      else case to_string_core v of
             Inl e \<Rightarrow> Inl e
           | Inr r \<Rightarrow> Inr (r @ append_identifiers CHR ''-'' (prerelease v) @
                              append_identifiers CHR ''+'' (build_metadata v)))"

text \<open>
  \<open>compare_prerelease\<close>: the loop runs over the common length of the two identifier
  vectors and returns at the first difference; behind it the sizes decide. Both vectors
  lose one element per round, so the remaining lengths compare as the sizes do.
\<close>

fun compare_identifiers :: "string list \<Rightarrow> string list \<Rightarrow> semver_exception + int" where
  "compare_identifiers (l # ls) (r # rs) =
     (let l_numeric = is_numeric l; r_numeric = is_numeric r
      in if l_numeric \<and> r_numeric then
           (case stoul l of
              Inl e \<Rightarrow> Inl e
            | Inr l_val \<Rightarrow>
                (case stoul r of
                   Inl e \<Rightarrow> Inl e
                 | Inr r_val \<Rightarrow>
                     if l_val < r_val then Inr (- 1)
                     else if l_val > r_val then Inr 1
                     else compare_identifiers ls rs))
         else if l_numeric \<and> \<not> r_numeric then Inr (- 1)
         else if \<not> l_numeric \<and> r_numeric then Inr 1
         else if l < r then Inr (- 1)
         else if l > r then Inr 1
         else compare_identifiers ls rs)"
| "compare_identifiers ls rs =
     (if length ls < length rs then Inr (- 1)
      else if length ls > length rs then Inr 1
      else Inr 0)"

definition compare_prerelease :: "Semver \<Rightarrow> Semver \<Rightarrow> semver_exception + int" where
  "compare_prerelease this other =
     (if prerelease this = [] \<and> prerelease other \<noteq> [] then Inr 1
      else if prerelease this \<noteq> [] \<and> prerelease other = [] then Inr (- 1)
      else if prerelease this = [] \<and> prerelease other = [] then Inr 0
      else compare_identifiers (prerelease this) (prerelease other))"

definition Semver_eq :: "Semver \<Rightarrow> Semver \<Rightarrow> bool" where
  "Semver_eq this other =
     (if \<not> valid this \<or> \<not> valid other then False
      else major this = major other \<and> minor this = minor other \<and>
           patch this = patch other \<and> prerelease this = prerelease other)"

definition Semver_ne :: "Semver \<Rightarrow> Semver \<Rightarrow> bool" where
  "Semver_ne this other = (\<not> Semver_eq this other)"

definition Semver_lt :: "Semver \<Rightarrow> Semver \<Rightarrow> semver_exception + bool" where
  "Semver_lt this other =
     (if \<not> valid this \<or> \<not> valid other then Inr False
      else if major this \<noteq> major other then Inr (major this < major other)
      else if minor this \<noteq> minor other then Inr (minor this < minor other)
      else if patch this \<noteq> patch other then Inr (patch this < patch other)
      else case compare_prerelease this other of
             Inl e \<Rightarrow> Inl e
           | Inr c \<Rightarrow> Inr (c < 0))"

definition Semver_le :: "Semver \<Rightarrow> Semver \<Rightarrow> semver_exception + bool" where
  "Semver_le this other =
     (case Semver_lt this other of
        Inl e \<Rightarrow> Inl e
      | Inr b \<Rightarrow> Inr (b \<or> Semver_eq this other))"

definition Semver_gt :: "Semver \<Rightarrow> Semver \<Rightarrow> semver_exception + bool" where
  "Semver_gt this other =
     (case Semver_le this other of Inl e \<Rightarrow> Inl e | Inr b \<Rightarrow> Inr (\<not> b))"

definition Semver_ge :: "Semver \<Rightarrow> Semver \<Rightarrow> semver_exception + bool" where
  "Semver_ge this other =
     (case Semver_lt this other of Inl e \<Rightarrow> Inl e | Inr b \<Rightarrow> Inr (\<not> b))"


section \<open>The staged map (villagesql/schema/victionary\_client.h)\<close>

subsection \<open>The ordered map of the standard library\<close>

text \<open>
  \<^verbatim>\<open>std::map<std::string, V>\<close> is kept as the list of its pairs in iteration order, that
  is with strictly increasing keys. Lookup, assignment through \<^verbatim>\<open>operator[]\<close>, \<^verbatim>\<open>erase\<close>
  and \<^verbatim>\<open>lower_bound\<close> are the usual operations on such a list.
\<close>

type_synonym 'v std_map = "(string \<times> 'v) list"

definition map_find :: "'v std_map \<Rightarrow> string \<Rightarrow> 'v option" where
  "map_find m k = map_of m k"

fun map_assign :: "string \<Rightarrow> 'v \<Rightarrow> 'v std_map \<Rightarrow> 'v std_map" where
  "map_assign k v [] = [(k, v)]"
| "map_assign k v ((k', v') # m) =
     (if k < k' then (k, v) # (k', v') # m
      else if k = k' then (k, v) # m
      else (k', v') # map_assign k v m)"

definition map_erase :: "string \<Rightarrow> 'v std_map \<Rightarrow> 'v std_map" where
  "map_erase k m = filter (\<lambda>kv. fst kv \<noteq> k) m"

definition lower_bound :: "string \<Rightarrow> 'v std_map \<Rightarrow> 'v std_map" where
  "lower_bound k m = dropWhile (\<lambda>kv. fst kv < k) m"

definition sorted_keys :: "'v std_map \<Rightarrow> bool" where
  "sorted_keys m = sorted_wrt (<) (map fst m)"

subsection \<open>Pending operations and the map state\<close>

datatype OperationType = INSERT | UPDATE | DELETE

text \<open>
  A pending operation. \<open>entry\<close> is the shared pointer (\<open>None\<close> is \<^verbatim>\<open>nullptr\<close>); \<open>key\<close>
  is the string of the stored key, empty for the default-constructed key of an INSERT.
\<close>

record 'e PendingOperation =
  op_type :: OperationType
  entry :: "'e option"
  key :: string

text \<open>
  A committed entry is held through a \<^verbatim>\<open>std::shared_ptr\<close>: the object and its strong
  reference count.
\<close>

record 'e shared_ptr =
  pointee :: 'e
  use_count :: nat

type_synonym THD = nat

text \<open>
  The map itself. \<open>m_uncommitted\<close> is the \<^verbatim>\<open>std::map\<close> from session to its list of
  pending operations, in staging order. The hit and miss counters are statistics only and
  are left out. The template parameter \<open>EntryType\<close> contributes the function \<open>kf\<close> that
  gives the string of an entry's key, \<^verbatim>\<open>entry.key().str()\<close>.
\<close>

record 'e SystemTableMap =
  m_committed :: "'e shared_ptr std_map"
  m_uncommitted :: "THD \<Rightarrow> 'e PendingOperation list option"

definition get_committed :: "'e SystemTableMap \<Rightarrow> string \<Rightarrow> 'e option" where
  "get_committed m key_str =
     (case map_find (m_committed m) key_str of
        None \<Rightarrow> None
      | Some p \<Rightarrow> Some (pointee p))"

text \<open>The loop of \<open>get\<close>: walk the list, remembering the latest operation on the key.\<close>

fun most_recent_operation ::
  "('e \<Rightarrow> string) \<Rightarrow> string \<Rightarrow> 'e PendingOperation list \<Rightarrow> 'e PendingOperation option
     \<Rightarrow> 'e PendingOperation option" where
  "most_recent_operation kf key_str [] most_recent_op = most_recent_op"
| "most_recent_operation kf key_str (op # ops) most_recent_op =
     (let op_key = (case entry op of Some e \<Rightarrow> kf e | None \<Rightarrow> key op)
      in if op_key = key_str \<or> (op_type op = UPDATE \<and> key op = key_str)
         then most_recent_operation kf key_str ops (Some op)
         else most_recent_operation kf key_str ops most_recent_op)"

definition get :: "('e \<Rightarrow> string) \<Rightarrow> 'e SystemTableMap \<Rightarrow> THD option \<Rightarrow> string \<Rightarrow> 'e option" where
  "get kf m thd key_str =
     (case thd of
        None \<Rightarrow> get_committed m key_str
      | Some t \<Rightarrow>
          (case m_uncommitted m t of
             None \<Rightarrow> get_committed m key_str
           | Some ops \<Rightarrow>
               (case most_recent_operation kf key_str ops None of
                  None \<Rightarrow> get_committed m key_str
                | Some most_recent_op \<Rightarrow>
                    if op_type most_recent_op = DELETE then None
                    else entry most_recent_op)))"

definition get_use_count :: "'e SystemTableMap \<Rightarrow> string \<Rightarrow> nat" where
  "get_use_count m key_str =
     (case map_find (m_committed m) key_str of
        None \<Rightarrow> 0
      | Some p \<Rightarrow> use_count p)"

definition has_uncommitted :: "'e SystemTableMap \<Rightarrow> THD \<Rightarrow> bool" where
  "has_uncommitted m thd =
     (case m_uncommitted m thd of None \<Rightarrow> False | Some ops \<Rightarrow> length ops \<noteq> 0)"

text \<open>
  \<^verbatim>\<open>m_uncommitted[&thd].link_in_list(op, &op->next)\<close>: the list of the session is created
  on first use and the operation is appended. Allocation is taken to succeed, so the
  marking functions return \<open>False\<close>, their success value.
\<close>

definition link_in_list ::
  "'e SystemTableMap \<Rightarrow> THD \<Rightarrow> 'e PendingOperation \<Rightarrow> 'e SystemTableMap" where
  "link_in_list m thd op =
     m\<lparr>m_uncommitted := (m_uncommitted m)
          (thd \<mapsto> (case m_uncommitted m thd of None \<Rightarrow> [] | Some ops \<Rightarrow> ops) @ [op])\<rparr>"

definition add_uncommitted_insert_or_update ::
  "'e SystemTableMap \<Rightarrow> THD \<Rightarrow> OperationType \<Rightarrow> 'e \<Rightarrow> string \<Rightarrow> bool \<times> 'e SystemTableMap" where
  "add_uncommitted_insert_or_update m thd type e k =
     (False, link_in_list m thd \<lparr>op_type = type, entry = Some e, key = k\<rparr>)"

definition add_uncommitted_delete ::
  "'e SystemTableMap \<Rightarrow> THD \<Rightarrow> string \<Rightarrow> bool \<times> 'e SystemTableMap" where
  "add_uncommitted_delete m thd k =
     (False, link_in_list m thd \<lparr>op_type = DELETE, entry = None, key = k\<rparr>)"

definition MarkForInsertion :: "'e SystemTableMap \<Rightarrow> THD \<Rightarrow> 'e \<Rightarrow> bool \<times> 'e SystemTableMap" where
  "MarkForInsertion m thd e = add_uncommitted_insert_or_update m thd INSERT e []"

definition MarkForUpdate ::
  "'e SystemTableMap \<Rightarrow> THD \<Rightarrow> 'e \<Rightarrow> string \<Rightarrow> bool \<times> 'e SystemTableMap" where
  "MarkForUpdate m thd e old_key = add_uncommitted_insert_or_update m thd UPDATE e old_key"

definition MarkForDeletion :: "'e SystemTableMap \<Rightarrow> THD \<Rightarrow> string \<Rightarrow> bool \<times> 'e SystemTableMap" where
  "MarkForDeletion m thd k = add_uncommitted_delete m thd k"

text \<open>
  One round of the loop of \<open>commit\<close>. The entry pointer of an INSERT or UPDATE is moved
  into the committed map, which then is its only owner. The code asserts that this pointer
  is set; every operation stored by the marking functions satisfies that.
\<close>

definition commit_operation ::
  "('e \<Rightarrow> string) \<Rightarrow> 'e PendingOperation \<Rightarrow> 'e shared_ptr std_map \<Rightarrow> 'e shared_ptr std_map" where
  "commit_operation kf op committed =
     (case op_type op of
        DELETE \<Rightarrow> map_erase (key op) committed
      | _ \<Rightarrow>
          (case entry op of
             None \<Rightarrow> committed
           | Some e \<Rightarrow>
               let k = kf e;
                   committed' = map_assign k \<lparr>pointee = e, use_count = 1\<rparr> committed;
                   old_key = key op
               in if op_type op = UPDATE \<and> old_key \<noteq> [] \<and> old_key \<noteq> k
                  then map_erase old_key committed'
                  else committed'))"

fun commit_operations ::
  "('e \<Rightarrow> string) \<Rightarrow> 'e PendingOperation list \<Rightarrow> 'e shared_ptr std_map \<Rightarrow> 'e shared_ptr std_map" where
  "commit_operations kf [] committed = committed"
| "commit_operations kf (op # ops) committed =
     commit_operations kf ops (commit_operation kf op committed)"

definition commit :: "('e \<Rightarrow> string) \<Rightarrow> 'e SystemTableMap \<Rightarrow> THD option \<Rightarrow> 'e SystemTableMap" where
  "commit kf m thd =
     (case thd of
        None \<Rightarrow> m
      | Some t \<Rightarrow>
          (case m_uncommitted m t of
             None \<Rightarrow> m
           | Some ops \<Rightarrow>
               m\<lparr>m_committed := commit_operations kf ops (m_committed m),
                  m_uncommitted := (m_uncommitted m)(t := None)\<rparr>))"

definition rollback :: "'e SystemTableMap \<Rightarrow> THD option \<Rightarrow> 'e SystemTableMap" where
  "rollback m thd =
     (case thd of
        None \<Rightarrow> m
      | Some t \<Rightarrow> m\<lparr>m_uncommitted := (m_uncommitted m)(t := None)\<rparr>)"

definition clear :: "'e SystemTableMap \<Rightarrow> 'e SystemTableMap" where
  "clear m = m\<lparr>m_committed := [], m_uncommitted := (\<lambda>t. None)\<rparr>"

text \<open>
  The prefix scans. \<^verbatim>\<open>upper.back() = upper.back() + 1\<close> increments the last byte, and a
  byte 0xFF wraps to 0.
\<close>

definition next_byte :: "char \<Rightarrow> char" where
  "next_byte c = char_of (of_char c + (1::nat))"

definition upper_bound_of_prefix :: "string \<Rightarrow> string" where
  "upper_bound_of_prefix prefix_str = butlast prefix_str @ [next_byte (last prefix_str)]"

definition get_prefix_committed :: "'e SystemTableMap \<Rightarrow> string \<Rightarrow> 'e list" where
  "get_prefix_committed m prefix_str =
     (if prefix_str = [] then []
      else
        let upper = upper_bound_of_prefix prefix_str;
            it = lower_bound prefix_str (m_committed m)
        in map (\<lambda>kv. pointee (snd kv)) (takeWhile (\<lambda>kv. fst kv < upper) it))"

definition has_prefix_committed :: "'e SystemTableMap \<Rightarrow> string \<Rightarrow> bool" where
  "has_prefix_committed m prefix_str =
     (if prefix_str = [] then False
      else
        let upper = upper_bound_of_prefix prefix_str;
            it = lower_bound prefix_str (m_committed m)
        in (case it of [] \<Rightarrow> False | kv # _ \<Rightarrow> fst kv < upper))"

definition get_all_committed :: "'e SystemTableMap \<Rightarrow> 'e list" where
  "get_all_committed m = map (\<lambda>kv. pointee (snd kv)) (m_committed m)"


section \<open>Keys and entries\<close>

subsection \<open>Identifier normalization (villagesql/schema/systable/helpers.cc)\<close>

text \<open>
  Modelled from the spec: the host function \<^verbatim>\<open>casedn\<close>, which is not part of these
  sources. The normalization functions return lowercase; on the ASCII letters that an
  extension name may contain this is the mapping of \<open>A..Z\<close> to \<open>a..z\<close>.
\<close>

definition lower_char :: "char \<Rightarrow> char" where
  "lower_char c =
     (if CHR ''A'' \<le> c \<and> c \<le> CHR ''Z'' then char_of (of_char c + (32::nat)) else c)"

definition casedn :: "string \<Rightarrow> string" where
  "casedn name = map lower_char name"

text \<open>
  The global \<^verbatim>\<open>lower_case_table_names\<close> is the parameter \<open>lctn\<close> of the two
  normalizations that read it.
\<close>

definition normalize_database_name :: "int \<Rightarrow> string \<Rightarrow> string" where
  "normalize_database_name lctn name = (if lctn = 0 then name else casedn name)"

definition normalize_table_name :: "int \<Rightarrow> string \<Rightarrow> string" where
  "normalize_table_name lctn name = (if lctn = 0 then name else casedn name)"

definition normalize_column_name :: "string \<Rightarrow> string" where
  "normalize_column_name name = casedn name"

definition normalize_extension_name :: "string \<Rightarrow> string" where
  "normalize_extension_name name = casedn name"

definition normalize_type_name :: "string \<Rightarrow> string" where
  "normalize_type_name name = casedn name"

subsection \<open>Columns (villagesql/schema/systable/custom\_columns.h)\<close>

record ColumnKey =
  ck_db :: string
  ck_table :: string
  ck_column :: string
  ck_normalized_key :: string

definition ColumnKey :: "int \<Rightarrow> string \<Rightarrow> string \<Rightarrow> string \<Rightarrow> ColumnKey" where
  "ColumnKey lctn db_name table_name column_name =
     \<lparr>ck_db = db_name, ck_table = table_name, ck_column = column_name,
      ck_normalized_key = normalize_database_name lctn db_name @ ''.'' @
                          normalize_table_name lctn table_name @ ''.'' @
                          normalize_column_name column_name\<rparr>"

definition ColumnKeyPrefix :: "int \<Rightarrow> string \<Rightarrow> string \<Rightarrow> string" where
  "ColumnKeyPrefix lctn db_name table_name =
     normalize_database_name lctn db_name @ ''.'' @
     (if table_name = [] then [] else normalize_table_name lctn table_name @ ''.'')"

record ColumnEntry =
  col_key :: ColumnKey
  col_extension_name :: string
  col_extension_version :: string
  col_type_name :: string

definition column_key_str :: "ColumnEntry \<Rightarrow> string" where
  "column_key_str e = ck_normalized_key (col_key e)"

subsection \<open>Extensions (villagesql/schema/systable/extensions.h)\<close>

record ExtensionKey =
  ek_extension_name :: string
  ek_normalized_key :: string

definition ExtensionKey :: "string \<Rightarrow> ExtensionKey" where
  "ExtensionKey name =
     \<lparr>ek_extension_name = name, ek_normalized_key = normalize_extension_name name\<rparr>"

record ExtensionEntry =
  ext_key :: ExtensionKey
  ext_extension_version :: string
  ext_veb_sha256 :: string

definition extension_key_str :: "ExtensionEntry \<Rightarrow> string" where
  "extension_key_str e = ek_normalized_key (ext_key e)"

definition ext_extension_name :: "ExtensionEntry \<Rightarrow> string" where
  "ext_extension_name e = ek_extension_name (ext_key e)"

subsection \<open>Properties (villagesql/schema/systable/properties.h)\<close>

record PropertyEntry =
  prop_name :: string
  prop_normalized_key :: string
  prop_value :: string
  prop_description :: string

subsection \<open>Type descriptors (villagesql/schema/descriptor/type\_descriptor.h)\<close>

record TypeDescriptorKey =
  tdk_type_name :: string
  tdk_extension_name :: string
  tdk_extension_version :: string
  tdk_normalized_key :: string

definition TypeDescriptorKey :: "string \<Rightarrow> string \<Rightarrow> string \<Rightarrow> TypeDescriptorKey" where
  "TypeDescriptorKey type_name extension_name extension_version =
     \<lparr>tdk_type_name = type_name, tdk_extension_name = extension_name,
      tdk_extension_version = extension_version,
      tdk_normalized_key = normalize_type_name type_name @ ''.'' @
                           normalize_extension_name extension_name @ ''.'' @
                           normalize_extension_name extension_version\<rparr>"

text \<open>\<^verbatim>\<open>operator==\<close> of the key types compares the normalized strings.\<close>

definition TypeDescriptorKey_eq :: "TypeDescriptorKey \<Rightarrow> TypeDescriptorKey \<Rightarrow> bool" where
  "TypeDescriptorKey_eq a b = (tdk_normalized_key a = tdk_normalized_key b)"


text \<open>
  Of a descriptor the key and the three numeric fields are kept; the four function
  pointers into the shared object are not read by any code modelled here.
\<close>

record TypeDescriptor =
  td_key :: TypeDescriptorKey
  td_implementation_type :: nat
  td_persisted_length :: int
  td_max_decode_buffer_length :: int

definition type_descriptor_key_str :: "TypeDescriptor \<Rightarrow> string" where
  "type_descriptor_key_str d = tdk_normalized_key (td_key d)"

subsection \<open>Extension descriptors (villagesql/schema/descriptor/extension\_descriptor.h)\<close>

record ExtensionRegistration =
  so_path :: string
  dlhandle :: nat

record ExtensionDescriptorKey =
  edk_extension_name :: string
  edk_extension_version :: string
  edk_normalized_key :: string

definition ExtensionDescriptorKey :: "string \<Rightarrow> string \<Rightarrow> ExtensionDescriptorKey" where
  "ExtensionDescriptorKey extension_name extension_version =
     \<lparr>edk_extension_name = extension_name, edk_extension_version = extension_version,
      edk_normalized_key = normalize_extension_name extension_name @ ''.'' @
                           normalize_extension_name extension_version\<rparr>"

record ExtensionDescriptor =
  ed_key :: ExtensionDescriptorKey
  ed_registration :: ExtensionRegistration

definition extension_descriptor_key_str :: "ExtensionDescriptor \<Rightarrow> string" where
  "extension_descriptor_key_str d = edk_normalized_key (ed_key d)"

subsection \<open>Assertions (villagesql/include/error.h)\<close>

text \<open>
  A failed assertion aborts the program with the text of the expression. \<open>ndebug\<close> says
  whether the build defines \<^verbatim>\<open>NDEBUG\<close>. \<open>should_assert_if_false\<close> aborts in a build
  with assertions and otherwise returns whether it would have aborted, so that the caller
  can return an error. The staging functions of \<open>metadata_modifier.cc\<close> below are given
  for a build with \<^verbatim>\<open>NDEBUG\<close>.
\<close>

datatype assertion_failure = Assertion_failed string




subsection \<open>Type contexts (villagesql/schema/descriptor/type\_context.h)\<close>

text \<open>
  \<open>TypeParameters\<close>: the parameter map in key order and its normalized string
  \<open>k1=v1;k2=v2;...\<close>, built by the loop of \<open>build_normalized_key\<close>.
\<close>

fun build_normalized_key :: "(string \<times> string) list \<Rightarrow> string \<Rightarrow> string" where
  "build_normalized_key [] normalized_key = normalized_key"
| "build_normalized_key ((k, v) # params) normalized_key =
     build_normalized_key params
       ((if normalized_key \<noteq> [] then normalized_key @ '';'' else normalized_key) @
        k @ ''='' @ v)"

record TypeParameters =
  tp_params :: "(string \<times> string) list"
  tp_normalized_key :: string

definition TypeParameters :: "(string \<times> string) list \<Rightarrow> TypeParameters" where
  "TypeParameters params =
     \<lparr>tp_params = params, tp_normalized_key = build_normalized_key params []\<rparr>"

record TypeContextKey =
  tck_descriptor_key :: TypeDescriptorKey
  tck_parameters :: TypeParameters
  tck_normalized_key :: string

definition TypeContextKey :: "TypeDescriptorKey \<Rightarrow> TypeParameters \<Rightarrow> TypeContextKey" where
  "TypeContextKey desc_key params =
     \<lparr>tck_descriptor_key = desc_key, tck_parameters = params,
      tck_normalized_key =
        (if tp_normalized_key params = [] then tdk_normalized_key desc_key
         else tdk_normalized_key desc_key @ ''.'' @ tp_normalized_key params)\<rparr>"

text \<open>
  A type context holds a raw, non-owning pointer to its descriptor (\<open>None\<close> is
  \<^verbatim>\<open>nullptr\<close>). Descriptors have no mutators, so the pointer is kept as the value it
  points to.
\<close>

record TypeContext =
  tc_descriptor :: "TypeDescriptor option"
  tc_key :: TypeContextKey

text \<open>
  The constructor. Its two checks are \<^verbatim>\<open>assert\<close> calls: a build with assertions aborts
  when one fails, and a build with \<^verbatim>\<open>NDEBUG\<close> constructs the object whatever the
  arguments are.
\<close>

definition TypeContext ::
  "bool \<Rightarrow> TypeContextKey \<Rightarrow> TypeDescriptor option \<Rightarrow> assertion_failure + TypeContext" where
  "TypeContext ndebug k descriptor =
     (if ndebug then Inr \<lparr>tc_descriptor = descriptor, tc_key = k\<rparr>
      else case descriptor of
             None \<Rightarrow> Inl (Assertion_failed ''descriptor'')
           | Some d \<Rightarrow>
               if \<not> TypeDescriptorKey_eq (td_key d) (tck_descriptor_key k)
               then Inl (Assertion_failed ''descriptor->key() == key.descriptor_key()'')
               else Inr \<lparr>tc_descriptor = descriptor, tc_key = k\<rparr>)"


definition type_context_key_str :: "TypeContext \<Rightarrow> string" where
  "type_context_key_str tc = tck_normalized_key (tc_key tc)"

text \<open>
  The convenience accessors read through the descriptor pointer.
\<close>

definition tc_extension_name :: "TypeContext \<Rightarrow> string" where
  "tc_extension_name tc = tdk_extension_name (td_key (the (tc_descriptor tc)))"

definition tc_extension_version :: "TypeContext \<Rightarrow> string" where
  "tc_extension_version tc = tdk_extension_version (td_key (the (tc_descriptor tc)))"

definition tc_type_name :: "TypeContext \<Rightarrow> string" where
  "tc_type_name tc = tdk_type_name (td_key (the (tc_descriptor tc)))"



section \<open>The Victionary container (villagesql/schema/victionary\_client.cc)\<close>

record VictionaryClient =
  m_initialized :: bool
  m_properties :: "PropertyEntry SystemTableMap"
  m_columns :: "ColumnEntry SystemTableMap"
  m_extensions :: "ExtensionEntry SystemTableMap"
  m_type_descriptors :: "TypeDescriptor SystemTableMap"
  m_extension_descriptors :: "ExtensionDescriptor SystemTableMap"
  m_type_contexts :: "TypeContext SystemTableMap"

definition commit_all_tables :: "VictionaryClient \<Rightarrow> THD option \<Rightarrow> VictionaryClient" where
  "commit_all_tables v thd =
     (if \<not> m_initialized v \<or> thd = None then v
      else v\<lparr>m_properties := commit prop_normalized_key (m_properties v) thd,
             m_columns := commit column_key_str (m_columns v) thd,
             m_extensions := commit extension_key_str (m_extensions v) thd,
             m_type_descriptors := commit type_descriptor_key_str (m_type_descriptors v) thd,
             m_extension_descriptors :=
               commit extension_descriptor_key_str (m_extension_descriptors v) thd,
             m_type_contexts := commit type_context_key_str (m_type_contexts v) thd\<rparr>)"

definition rollback_all_tables :: "VictionaryClient \<Rightarrow> THD option \<Rightarrow> VictionaryClient" where
  "rollback_all_tables v thd =
     (if \<not> m_initialized v \<or> thd = None then v
      else v\<lparr>m_properties := rollback (m_properties v) thd,
             m_columns := rollback (m_columns v) thd,
             m_extensions := rollback (m_extensions v) thd,
             m_type_descriptors := rollback (m_type_descriptors v) thd,
             m_extension_descriptors := rollback (m_extension_descriptors v) thd,
             m_type_contexts := rollback (m_type_contexts v) thd\<rparr>)"

section \<open>Resolving custom types (villagesql/types/util.cc)\<close>



section \<open>DDL staging (villagesql/sql/metadata\_modifier.cc)\<close>

record Metadata_modifier =
  to_add :: "ColumnEntry list"
  to_remove :: "ColumnEntry list"
  to_rename :: "(ColumnEntry \<times> ColumnKey) list"

text \<open>
  The three loops of \<open>mark_victionary_modifications\<close>. Each returns at the first
  marking call that reports an error; the flag \<open>marked\<close> is set after each call that
  succeeded.
\<close>

fun mark_removals ::
  "THD \<Rightarrow> ColumnEntry list \<Rightarrow> bool \<times> ColumnEntry SystemTableMap
     \<Rightarrow> bool \<times> bool \<times> ColumnEntry SystemTableMap" where
  "mark_removals thd [] (marked, columns) = (False, marked, columns)"
| "mark_removals thd (e # es) (marked, columns) =
     (case MarkForDeletion columns thd (ck_normalized_key (col_key e)) of
        (True, columns') \<Rightarrow> (True, marked, columns')
      | (False, columns') \<Rightarrow> mark_removals thd es (True, columns'))"

fun mark_renames ::
  "THD \<Rightarrow> (ColumnEntry \<times> ColumnKey) list \<Rightarrow> bool \<times> ColumnEntry SystemTableMap
     \<Rightarrow> bool \<times> bool \<times> ColumnEntry SystemTableMap" where
  "mark_renames thd [] (marked, columns) = (False, marked, columns)"
| "mark_renames thd ((new_entry, old_key) # rs) (marked, columns) =
     (case MarkForUpdate columns thd new_entry (ck_normalized_key old_key) of
        (True, columns') \<Rightarrow> (True, marked, columns')
      | (False, columns') \<Rightarrow> mark_renames thd rs (True, columns'))"

fun mark_additions ::
  "THD \<Rightarrow> ColumnEntry list \<Rightarrow> bool \<times> ColumnEntry SystemTableMap
     \<Rightarrow> bool \<times> bool \<times> ColumnEntry SystemTableMap" where
  "mark_additions thd [] (marked, columns) = (False, marked, columns)"
| "mark_additions thd (e # es) (marked, columns) =
     (case MarkForInsertion columns thd e of
        (True, columns') \<Rightarrow> (True, marked, columns')
      | (False, columns') \<Rightarrow> mark_additions thd es (True, columns'))"

text \<open>
  The result is the returned error flag, the out-parameter \<open>marked\<close>, the modifier
  (whose vectors are cleared as they are processed) and the Victionary.
\<close>

definition mark_victionary_modifications ::
  "Metadata_modifier \<Rightarrow> VictionaryClient \<Rightarrow> THD option
     \<Rightarrow> bool \<times> bool \<times> Metadata_modifier \<times> VictionaryClient" where
  "mark_victionary_modifications mm vclient thd =
     (if \<not> m_initialized vclient then (True, False, mm, vclient)
      else case thd of
        None \<Rightarrow> (True, False, mm, vclient)
      | Some t \<Rightarrow>
          (case mark_removals t (to_remove mm) (False, m_columns vclient) of
             (True, marked, columns1) \<Rightarrow> (True, marked, mm, vclient\<lparr>m_columns := columns1\<rparr>)
           | (False, marked1, columns1) \<Rightarrow>
               (case mark_renames t (to_rename mm) (marked1, columns1) of
                  (True, marked, columns2) \<Rightarrow>
                    (True, marked, mm\<lparr>to_remove := []\<rparr>, vclient\<lparr>m_columns := columns2\<rparr>)
                | (False, marked2, columns2) \<Rightarrow>
                    (case mark_additions t (to_add mm) (marked2, columns2) of
                       (True, marked, columns3) \<Rightarrow>
                         (True, marked, mm\<lparr>to_remove := [], to_rename := []\<rparr>,
                          vclient\<lparr>m_columns := columns3\<rparr>)
                     | (False, marked3, columns3) \<Rightarrow>
                         (False, marked3, mm\<lparr>to_remove := [], to_rename := [], to_add := []\<rparr>,
                          vclient\<lparr>m_columns := columns3\<rparr>)))))"

section \<open>UNINSTALL EXTENSION (villagesql/veb/sql\_extension.cc)\<close>

text \<open>The messages reported through \<open>villagesql_error\<close>, with their arguments.\<close>

datatype uninstall_error =
    Extension_not_installed string
  | Columns_depend string nat string string string string
  | Type_in_use string string
  | Cannot_open_extension_tables
  | Failed_to_delete_extension string

text \<open>
  \<open>check_for_columns_of_extension\<close>: counts the columns of the extension and remembers
  the first; the error names the extension, the count, the first column as
  \<open>db.table.column\<close> and its type.
\<close>

fun count_columns_of_extension ::
  "ExtensionEntry \<Rightarrow> ColumnEntry list \<Rightarrow> nat \<Rightarrow> ColumnEntry option \<Rightarrow> nat \<times> ColumnEntry option" where
  "count_columns_of_extension ext_entry [] cnt first_col = (cnt, first_col)"
| "count_columns_of_extension ext_entry (col # cols) cnt first_col =
     (if col_extension_name col = ext_extension_name ext_entry \<and>
         col_extension_version col = ext_extension_version ext_entry
      then count_columns_of_extension ext_entry cols (cnt + 1)
             (if cnt = 0 then Some col else first_col)
      else count_columns_of_extension ext_entry cols cnt first_col)"

definition check_for_columns_of_extension ::
  "ExtensionEntry \<Rightarrow> ColumnEntry list \<Rightarrow> uninstall_error option" where
  "check_for_columns_of_extension ext_entry all_columns =
     (case count_columns_of_extension ext_entry all_columns 0 None of
        (cnt, Some first_col) \<Rightarrow>
          Some (Columns_depend (ext_extension_name ext_entry) cnt
                  (ck_db (col_key first_col)) (ck_table (col_key first_col))
                  (ck_column (col_key first_col)) (col_type_name first_col))
      | (cnt, None) \<Rightarrow> None)"

text \<open>
  The loops over the type contexts and type descriptors of \<open>remove_extension_from_victionary\<close>.
  The comparisons are made with the name given in the statement.
\<close>

definition type_context_of_extension :: "string \<Rightarrow> ExtensionEntry \<Rightarrow> TypeContext \<Rightarrow> bool" where
  "type_context_of_extension extension_name ext_entry type_context =
     (tc_extension_name type_context = extension_name \<and>
      tc_extension_version type_context = ext_extension_version ext_entry)"

definition type_descriptor_of_extension :: "string \<Rightarrow> ExtensionEntry \<Rightarrow> TypeDescriptor \<Rightarrow> bool" where
  "type_descriptor_of_extension extension_name ext_entry type_desc =
     (tdk_extension_name (td_key type_desc) = extension_name \<and>
      tdk_extension_version (td_key type_desc) = ext_extension_version ext_entry)"

fun check_type_contexts_in_use ::
  "VictionaryClient \<Rightarrow> string \<Rightarrow> ExtensionEntry \<Rightarrow> TypeContext list \<Rightarrow> uninstall_error option" where
  "check_type_contexts_in_use v extension_name ext_entry [] = None"
| "check_type_contexts_in_use v extension_name ext_entry (type_context # rest) =
     (if type_context_of_extension extension_name ext_entry type_context \<and>
         get_use_count (m_type_contexts v) (type_context_key_str type_context) > 1
      then Some (Type_in_use extension_name (tc_type_name type_context))
      else check_type_contexts_in_use v extension_name ext_entry rest)"

fun check_type_descriptors_in_use ::
  "VictionaryClient \<Rightarrow> string \<Rightarrow> ExtensionEntry \<Rightarrow> TypeDescriptor list \<Rightarrow> uninstall_error option" where
  "check_type_descriptors_in_use v extension_name ext_entry [] = None"
| "check_type_descriptors_in_use v extension_name ext_entry (type_desc # rest) =
     (if type_descriptor_of_extension extension_name ext_entry type_desc \<and>
         get_use_count (m_type_descriptors v) (type_descriptor_key_str type_desc) > 1
      then Some (Type_in_use extension_name (tdk_type_name (td_key type_desc)))
      else check_type_descriptors_in_use v extension_name ext_entry rest)"

fun mark_type_contexts_for_deletion ::
  "THD \<Rightarrow> string \<Rightarrow> ExtensionEntry \<Rightarrow> TypeContext list \<Rightarrow> TypeContext SystemTableMap
     \<Rightarrow> TypeContext SystemTableMap" where
  "mark_type_contexts_for_deletion thd extension_name ext_entry [] m = m"
| "mark_type_contexts_for_deletion thd extension_name ext_entry (type_context # rest) m =
     mark_type_contexts_for_deletion thd extension_name ext_entry rest
       (if type_context_of_extension extension_name ext_entry type_context
        then snd (MarkForDeletion m thd (type_context_key_str type_context))
        else m)"

fun mark_type_descriptors_for_deletion ::
  "THD \<Rightarrow> string \<Rightarrow> ExtensionEntry \<Rightarrow> TypeDescriptor list \<Rightarrow> TypeDescriptor SystemTableMap
     \<Rightarrow> TypeDescriptor SystemTableMap" where
  "mark_type_descriptors_for_deletion thd extension_name ext_entry [] m = m"
| "mark_type_descriptors_for_deletion thd extension_name ext_entry (type_desc # rest) m =
     mark_type_descriptors_for_deletion thd extension_name ext_entry rest
       (if type_descriptor_of_extension extension_name ext_entry type_desc
        then snd (MarkForDeletion m thd (type_descriptor_key_str type_desc))
        else m)"

text \<open>
  The result of \<open>remove_extension_from_victionary\<close>: the returned flag (\<open>True\<close> is
  failure), the error reported, the Victionary, and the out-parameter \<open>to_unregister\<close>.
\<close>

record removal =
  refused :: bool
  reported :: "uninstall_error option"
  victionary :: VictionaryClient
  to_unregister :: "ExtensionRegistration option"

definition remove_extension_from_victionary ::
  "THD \<Rightarrow> VictionaryClient \<Rightarrow> string \<Rightarrow> removal" where
  "remove_extension_from_victionary thd v extension_name =
     (case get_committed (m_extensions v) (ek_normalized_key (ExtensionKey extension_name)) of
        None \<Rightarrow>
          \<lparr>refused = True, reported = Some (Extension_not_installed extension_name),
           victionary = v, to_unregister = None\<rparr>
      | Some ext_entry \<Rightarrow>
          let all_columns = get_all_committed (m_columns v) in
          (case check_for_columns_of_extension ext_entry all_columns of
             Some e \<Rightarrow> \<lparr>refused = True, reported = Some e, victionary = v, to_unregister = None\<rparr>
           | None \<Rightarrow>
               let all_type_contexts = get_all_committed (m_type_contexts v) in
               (case check_type_contexts_in_use v extension_name ext_entry all_type_contexts of
                  Some e \<Rightarrow>
                    \<lparr>refused = True, reported = Some e, victionary = v, to_unregister = None\<rparr>
                | None \<Rightarrow>
                    let all_type_descs = get_all_committed (m_type_descriptors v) in
                    (case check_type_descriptors_in_use v extension_name ext_entry all_type_descs of
                       Some e \<Rightarrow>
                         \<lparr>refused = True, reported = Some e, victionary = v, to_unregister = None\<rparr>
                     | None \<Rightarrow>
                         let v1 = v\<lparr>m_type_contexts :=
                                     mark_type_contexts_for_deletion thd extension_name ext_entry
                                       all_type_contexts (m_type_contexts v)\<rparr>;
                             v2 = v1\<lparr>m_type_descriptors :=
                                       mark_type_descriptors_for_deletion thd extension_name ext_entry
                                         all_type_descs (m_type_descriptors v1)\<rparr>;
                             v3 = v2\<lparr>m_extensions :=
                                       snd (MarkForDeletion (m_extensions v2) thd
                                              (ek_normalized_key (ext_key ext_entry)))\<rparr>
                         in (case get_committed (m_extension_descriptors v3)
                                    (edk_normalized_key
                                       (ExtensionDescriptorKey extension_name
                                          (ext_extension_version ext_entry))) of
                               None \<Rightarrow>
                                 \<lparr>refused = False, reported = None, victionary = v3,
                                  to_unregister = None\<rparr>
                             | Some ext_desc \<Rightarrow>
                                 \<lparr>refused = False, reported = None,
                                  victionary = v3\<lparr>m_extension_descriptors :=
                                    snd (MarkForDeletion (m_extension_descriptors v3) thd
                                           (edk_normalized_key (ed_key ext_desc)))\<rparr>,
                                  to_unregister = Some (ed_registration ext_desc)\<rparr>)))))"


text \<open>
  The statement itself. The host calls it makes are recorded in call order; whether each
  succeeds is given by the environment.
\<close>

record host_outcomes =
  global_read_lock_fails :: bool
  backup_lock_fails :: bool
  extension_lock_fails :: bool
  open_tables_fails :: bool
  write_entries_fails :: bool
  unregister_vdfs_fails :: bool
  commit_fails :: bool

datatype host_call =
    Acquire_shared_global_read_lock
  | Acquire_shared_backup_lock
  | Lock_extension_exclusive string
  | Open_and_lock_tables
  | Villagesql_error uninstall_error
  | Write_all_uncommitted_entries
  | Unregister_vdfs_from_extension string
  | Log_warning
  | Unload_vef_extension ExtensionRegistration
  | My_ok
  | Trans_commit
  | Trans_commit_failed
  | Trans_rollback

text \<open>
  Modelled from the spec: the host's \<open>end_transaction\<close>, which is not part of these
  sources. With an error it rolls the transaction back; otherwise it commits, and a
  commit that fails is rolled back. The transaction layer promotes the staged operations
  of the session on commit (\<open>commit_all_tables\<close>) and discards them on rollback
  (\<open>rollback_all_tables\<close>). It returns \<open>True\<close> on failure.
\<close>

definition end_transaction ::
  "host_outcomes \<Rightarrow> VictionaryClient \<Rightarrow> THD \<Rightarrow> bool \<Rightarrow> bool \<times> host_call list \<times> VictionaryClient" where
  "end_transaction env v thd error =
     (if error then (True, [Trans_rollback], rollback_all_tables v (Some thd))
      else if commit_fails env
        then (True, [Trans_commit_failed, Trans_rollback], rollback_all_tables v (Some thd))
      else (False, [Trans_commit], commit_all_tables v (Some thd)))"

definition finish ::
  "host_call list \<Rightarrow> bool \<times> host_call list \<times> VictionaryClient
     \<Rightarrow> bool \<times> host_call list \<times> VictionaryClient" where
  "finish calls r = (case r of (failed, later, v) \<Rightarrow> (failed, calls @ later, v))"

definition Sql_cmd_uninstall_extension_execute ::
  "host_outcomes \<Rightarrow> THD \<Rightarrow> VictionaryClient \<Rightarrow> string
     \<Rightarrow> bool \<times> host_call list \<times> VictionaryClient" where
  "Sql_cmd_uninstall_extension_execute env thd v extension_name =
     (if global_read_lock_fails env then (True, [Acquire_shared_global_read_lock], v)
      else if backup_lock_fails env
        then (True, [Acquire_shared_global_read_lock, Acquire_shared_backup_lock], v)
      else
        let calls1 = [Acquire_shared_global_read_lock, Acquire_shared_backup_lock,
                      Lock_extension_exclusive extension_name]
        in if extension_lock_fails env then (True, calls1, v)
           else
             let calls2 = calls1 @ [Open_and_lock_tables]
             in if open_tables_fails env
                then finish (calls2 @ [Villagesql_error Cannot_open_extension_tables])
                       (end_transaction env v thd True)
                else
                  let r = remove_extension_from_victionary thd v extension_name;
                      calls3 = calls2 @ (case reported r of None \<Rightarrow> []
                                          | Some e \<Rightarrow> [Villagesql_error e])
                  in if refused r then finish calls3 (end_transaction env (victionary r) thd True)
                     else
                       let calls4 = calls3 @ [Write_all_uncommitted_entries]
                       in if write_entries_fails env
                          then finish
                                 (calls4 @ [Villagesql_error (Failed_to_delete_extension extension_name)])
                                 (end_transaction env (victionary r) thd True)
                          else
                            let calls5 = calls4 @
                                  (case to_unregister r of
                                     None \<Rightarrow> []
                                   | Some reg \<Rightarrow>
                                       [Unregister_vdfs_from_extension extension_name] @
                                       (if unregister_vdfs_fails env then [Log_warning] else []) @
                                       [Unload_vef_extension reg])
                            in finish (calls5 @ [My_ok])
                                 (end_transaction env (victionary r) thd False))"

section \<open>What the specification says, in its own terms\<close>

text \<open>
  The operations that the marking functions can store: an INSERT carries its entry and the
  empty key, an UPDATE its entry and the old key, a DELETE the key alone.
\<close>

definition staged_by_marking :: "'e PendingOperation \<Rightarrow> bool" where
  "staged_by_marking op =
     (case op_type op of
        INSERT \<Rightarrow> entry op \<noteq> None \<and> key op = []
      | UPDATE \<Rightarrow> entry op \<noteq> None
      | DELETE \<Rightarrow> entry op = None)"

definition pending :: "'e SystemTableMap \<Rightarrow> THD \<Rightarrow> 'e PendingOperation list" where
  "pending m thd = (case m_uncommitted m thd of None \<Rightarrow> [] | Some ops \<Rightarrow> ops)"

text \<open>
  A pending operation touches \<open>k\<close> when its new key, the key of its entry, is \<open>k\<close>, or,
  for an UPDATE or a DELETE, its stored old key is \<open>k\<close>.
\<close>

definition spec_touches :: "('e \<Rightarrow> string) \<Rightarrow> string \<Rightarrow> 'e PendingOperation \<Rightarrow> bool" where
  "spec_touches kf k op =
     (case op_type op of
        INSERT \<Rightarrow> map_option kf (entry op) = Some k
      | UPDATE \<Rightarrow> map_option kf (entry op) = Some k \<or> key op = k
      | DELETE \<Rightarrow> key op = k)"

text \<open>
  The value of the last pending operation on \<open>k\<close>: nothing for a DELETE, the entry
  otherwise; the committed value when no pending operation touches \<open>k\<close>.
\<close>

definition spec_get ::
  "('e \<Rightarrow> string) \<Rightarrow> 'e PendingOperation list \<Rightarrow> 'e option \<Rightarrow> string \<Rightarrow> 'e option" where
  "spec_get kf ops committed_value k =
     (case filter (spec_touches kf k) ops of
        [] \<Rightarrow> committed_value
      | op # touching \<Rightarrow>
          if op_type (last (op # touching)) = DELETE then None
          else entry (last (op # touching)))"

text \<open>
  One pending operation applied to the committed state, seen as a partial function from
  keys to entries: INSERT and UPDATE assign the entry to its key, an UPDATE whose old key
  is non-empty and differs also erases the old key, DELETE erases its key. An INSERT or
  UPDATE without entry is never staged and changes nothing.
\<close>

definition spec_apply ::
  "('e \<Rightarrow> string) \<Rightarrow> 'e PendingOperation \<Rightarrow> (string \<rightharpoonup> 'e) \<Rightarrow> (string \<rightharpoonup> 'e)" where
  "spec_apply kf op committed =
     (case op_type op of
        DELETE \<Rightarrow> committed(key op := None)
      | INSERT \<Rightarrow>
          (case entry op of None \<Rightarrow> committed | Some e \<Rightarrow> committed(kf e \<mapsto> e))
      | UPDATE \<Rightarrow>
          (case entry op of
             None \<Rightarrow> committed
           | Some e \<Rightarrow>
               if key op \<noteq> [] \<and> key op \<noteq> kf e
               then (committed(kf e \<mapsto> e))(key op := None)
               else committed(kf e \<mapsto> e)))"

definition spec_apply_all ::
  "('e \<Rightarrow> string) \<Rightarrow> 'e PendingOperation list \<Rightarrow> (string \<rightharpoonup> 'e) \<Rightarrow> (string \<rightharpoonup> 'e)" where
  "spec_apply_all kf ops committed = foldl (\<lambda>c op. spec_apply kf op c) committed ops"

definition committed_view :: "'e shared_ptr std_map \<Rightarrow> (string \<rightharpoonup> 'e)" where
  "committed_view c = (\<lambda>k. case map_find c k of None \<Rightarrow> None | Some p \<Rightarrow> Some (pointee p))"


text \<open>
  The association the constructor of a type context asserts: the descriptor pointer is
  set, and the descriptor's key equals the descriptor-key component of the context's key.
\<close>

definition descriptor_matches_key :: "TypeContext \<Rightarrow> bool" where
  "descriptor_matches_key tc =
     (case tc_descriptor tc of
        None \<Rightarrow> False
      | Some d \<Rightarrow> TypeDescriptorKey_eq (td_key d) (tck_descriptor_key (tc_key tc)))"

definition type_contexts_match :: "VictionaryClient \<Rightarrow> bool" where
  "type_contexts_match v =
     list_all descriptor_matches_key (get_all_committed (m_type_contexts v))"

text \<open>
  What the committed map of type descriptors satisfies: every descriptor is stored under
  the string of its own key, as \<open>commit\<close> stores it, and every key is one that its
  constructor has made from its three names (the fields of a key are private).
\<close>

definition stored_under_own_key :: "('e \<Rightarrow> string) \<Rightarrow> 'e shared_ptr std_map \<Rightarrow> bool" where
  "stored_under_own_key kf committed = list_all (\<lambda>kv. kf (pointee (snd kv)) = fst kv) committed"

definition made_by_constructor :: "TypeDescriptor \<Rightarrow> bool" where
  "made_by_constructor d =
     (td_key d = TypeDescriptorKey (tdk_type_name (td_key d)) (tdk_extension_name (td_key d))
                   (tdk_extension_version (td_key d)))"

definition type_descriptors_well_formed :: "VictionaryClient \<Rightarrow> bool" where
  "type_descriptors_well_formed v =
     (stored_under_own_key type_descriptor_key_str (m_committed (m_type_descriptors v)) \<and>
      list_all made_by_constructor (get_all_committed (m_type_descriptors v)))"


text \<open>
  What every valid version satisfies, whether it was parsed or built from components: its
  pre-release identifiers are valid and carry no leading zero when numeric, and its build
  identifiers are valid.
\<close>

definition Semver_invariant :: "Semver \<Rightarrow> bool" where
  "Semver_invariant v =
     (valid v \<and> \<not> list_ex bad_prerelease_id (prerelease v) \<and>
      list_all is_valid_identifier (build_metadata v))"

text \<open>The text \<^verbatim>\<open>"%lu.%lu.%lu"\<close> of the core, before it meets the buffer.\<close>

definition core_text :: "Semver \<Rightarrow> string" where
  "core_text v =
     format_lu (uint (major v)) @ ''.'' @ format_lu (uint (minor v)) @ ''.'' @
     format_lu (uint (patch v))"

section \<open>Example states\<close>

text \<open>A column entry whose column name is empty, in table \<open>b\<close> of database \<open>a\<close>.\<close>

definition unnamed_column :: ColumnEntry where
  "unnamed_column = \<lparr>col_key = ColumnKey 0 ''a'' ''b'' [], col_extension_name = ''e'',
     col_extension_version = ''1.0.0'', col_type_name = ''t''\<rparr>"

definition empty_map :: "'e SystemTableMap" where
  "empty_map = \<lparr>m_committed = [], m_uncommitted = (\<lambda>t. None)\<rparr>"

text \<open>A map with the given entries committed, each with its number of owners.\<close>

definition committed_map :: "('e \<Rightarrow> string) \<Rightarrow> ('e \<times> nat) list \<Rightarrow> 'e SystemTableMap" where
  "committed_map kf es =
     \<lparr>m_committed = foldl (\<lambda>m (e, n). map_assign (kf e) \<lparr>pointee = e, use_count = n\<rparr> m) [] es,
      m_uncommitted = (\<lambda>t. None)\<rparr>"

text \<open>
  A custom-to-custom MODIFY of column \<open>c\<close> of table \<open>a.b\<close>: the old entry is committed,
  the modifier removes the key and adds the new entry under the same key.
\<close>

definition old_column :: ColumnEntry where
  "old_column = \<lparr>col_key = ColumnKey 0 ''a'' ''b'' ''c'', col_extension_name = ''e'',
     col_extension_version = ''1.0.0'', col_type_name = ''t1''\<rparr>"

definition new_column :: ColumnEntry where
  "new_column = \<lparr>col_key = ColumnKey 0 ''a'' ''b'' ''c'', col_extension_name = ''e'',
     col_extension_version = ''1.0.0'', col_type_name = ''t2''\<rparr>"

definition column_modification :: Metadata_modifier where
  "column_modification =
     \<lparr>to_add = [new_column],
      to_remove = [\<lparr>col_key = ColumnKey 0 ''a'' ''b'' ''c'', col_extension_name = [],
                    col_extension_version = [], col_type_name = []\<rparr>],
      to_rename = []\<rparr>"

definition victionary_with_column :: VictionaryClient where
  "victionary_with_column =
     \<lparr>m_initialized = True,
      m_properties = empty_map,
      m_columns = committed_map column_key_str [(old_column, 1)],
      m_extensions = empty_map,
      m_type_descriptors = empty_map,
      m_extension_descriptors = empty_map,
      m_type_contexts = empty_map\<rparr>"

text \<open>
  Extension \<open>Foo\<close> at version 1.0.0, installed under that name, with one type \<open>T\<close>, its
  type context and its loaded shared object. \<open>context_owners\<close> is the strong reference
  count of the type context: 1 when only the Victionary holds it.
\<close>

definition Foo_extension :: ExtensionEntry where
  "Foo_extension = \<lparr>ext_key = ExtensionKey ''Foo'', ext_extension_version = ''1.0.0'',
     ext_veb_sha256 = ''c0ffee''\<rparr>"

definition Foo_type :: TypeDescriptor where
  "Foo_type = \<lparr>td_key = TypeDescriptorKey ''T'' ''Foo'' ''1.0.0'', td_implementation_type = 1,
     td_persisted_length = 8, td_max_decode_buffer_length = 32\<rparr>"

definition Foo_context :: TypeContext where
  "Foo_context = \<lparr>tc_descriptor = Some Foo_type,
     tc_key = TypeContextKey (TypeDescriptorKey ''T'' ''Foo'' ''1.0.0'') (TypeParameters [])\<rparr>"

definition Foo_registration :: ExtensionRegistration where
  "Foo_registration = \<lparr>so_path = ''lib/Foo.so'', dlhandle = 7\<rparr>"

definition Foo_descriptor :: ExtensionDescriptor where
  "Foo_descriptor = \<lparr>ed_key = ExtensionDescriptorKey ''Foo'' ''1.0.0'',
     ed_registration = Foo_registration\<rparr>"

definition Foo_installed :: "nat \<Rightarrow> VictionaryClient" where
  "Foo_installed context_owners =
     \<lparr>m_initialized = True,
      m_properties = empty_map,
      m_columns = empty_map,
      m_extensions = committed_map extension_key_str [(Foo_extension, 1)],
      m_type_descriptors = committed_map type_descriptor_key_str [(Foo_type, 1)],
      m_extension_descriptors = committed_map extension_descriptor_key_str [(Foo_descriptor, 1)],
      m_type_contexts = committed_map type_context_key_str [(Foo_context, context_owners)]\<rparr>"



definition all_succeed :: host_outcomes where
  "all_succeed = \<lparr>global_read_lock_fails = False, backup_lock_fails = False,
     extension_lock_fails = False, open_tables_fails = False, write_entries_fails = False,
     unregister_vdfs_fails = False, commit_fails = False\<rparr>"

section \<open>The staged map: lookups and commit\<close>

lemma staged_by_marking_insertion:
  "list_all staged_by_marking (pending m t) \<Longrightarrow>
   list_all staged_by_marking (pending (snd (MarkForInsertion m t e)) t)"
  by (simp add: MarkForInsertion_def add_uncommitted_insert_or_update_def link_in_list_def
      pending_def staged_by_marking_def)

lemma staged_by_marking_update:
  "list_all staged_by_marking (pending m t) \<Longrightarrow>
   list_all staged_by_marking (pending (snd (MarkForUpdate m t e old_key)) t)"
  by (simp add: MarkForUpdate_def add_uncommitted_insert_or_update_def link_in_list_def
      pending_def staged_by_marking_def)

lemma staged_by_marking_deletion:
  "list_all staged_by_marking (pending m t) \<Longrightarrow>
   list_all staged_by_marking (pending (snd (MarkForDeletion m t k)) t)"
  by (simp add: MarkForDeletion_def add_uncommitted_delete_def link_in_list_def
      pending_def staged_by_marking_def)

lemma code_match_is_spec_touches:
  "staged_by_marking op \<Longrightarrow>
   ((case entry op of Some e \<Rightarrow> kf e | None \<Rightarrow> key op) = k \<or> (op_type op = UPDATE \<and> key op = k))
     = spec_touches kf k op"
  by (cases "op_type op"; cases "entry op") (auto simp: staged_by_marking_def spec_touches_def)

lemma most_recent_operation_filter:
  "list_all staged_by_marking ops \<Longrightarrow>
   most_recent_operation kf k ops acc =
     (case filter (spec_touches kf k) ops of
        [] \<Rightarrow> acc
      | op # touching \<Rightarrow> Some (last (op # touching)))"
proof (induction ops arbitrary: acc)
  case Nil
  then show ?case by simp
next
  case (Cons op ops)
  then have wf: "staged_by_marking op" and rest: "list_all staged_by_marking ops" by simp_all
  show ?case
    using Cons.IH [OF rest] code_match_is_spec_touches [OF wf, of kf k]
    by (simp add: Let_def split: list.splits)
qed

text \<open>
  Claim C1. For a session \<open>t\<close> and a key \<open>k\<close>, \<open>get\<close> returns the value of the last
  operation of the session's pending list that touches \<open>k\<close> (through the key of its entry,
  or through the stored old key of an UPDATE or DELETE): nothing when that operation is a
  DELETE, its entry otherwise. When no pending operation touches \<open>k\<close>, when the session
  has no pending list, or when no session is given, \<open>get\<close> returns \<open>get_committed k\<close>.
  The pending list is any list of operations that the marking functions can have stored.
\<close>

theorem get_last_pending_operation:
  "(m_uncommitted m t = Some ops \<and> list_all staged_by_marking ops \<longrightarrow>
      get kf m (Some t) k = spec_get kf ops (get_committed m k) k) \<and>
   (m_uncommitted m t = None \<longrightarrow> get kf m (Some t) k = get_committed m k) \<and>
   get kf m None k = get_committed m k"
  by (auto simp: get_def spec_get_def most_recent_operation_filter
      split: list.splits option.splits)

text \<open>
  The rename chain Insert, Update, Delete, Insert on one key, staged through the marking
  functions: \<open>get\<close> returns the latest insert.
\<close>

theorem get_last_pending_operation_witness:
  "get fst
     (snd (MarkForInsertion
       (snd (MarkForDeletion
         (snd (MarkForUpdate
           (snd (MarkForInsertion \<lparr>m_committed = [], m_uncommitted = (\<lambda>t. None)\<rparr>
                   (1::nat) (''k'', 1::nat)))
           1 (''k'', 2) ''k''))
         1 ''k''))
       1 (''k'', 3)))
     (Some 1) ''k'' = Some (''k'', 3)"
proof -
  let ?ops = "[\<lparr>op_type = INSERT, entry = Some (''k'', 1::nat), key = []\<rparr>,
               \<lparr>op_type = UPDATE, entry = Some (''k'', 2), key = ''k''\<rparr>,
               \<lparr>op_type = DELETE, entry = None, key = ''k''\<rparr>,
               \<lparr>op_type = INSERT, entry = Some (''k'', 3), key = []\<rparr>]"
  let ?m = "snd (MarkForInsertion
       (snd (MarkForDeletion
         (snd (MarkForUpdate
           (snd (MarkForInsertion \<lparr>m_committed = [], m_uncommitted = (\<lambda>t. None)\<rparr>
                   (1::nat) (''k'', 1::nat)))
           1 (''k'', 2) ''k''))
         1 ''k''))
       1 (''k'', 3))"
  have ops: "m_uncommitted ?m 1 = Some ?ops"
    by (simp add: MarkForInsertion_def MarkForUpdate_def MarkForDeletion_def
        add_uncommitted_insert_or_update_def add_uncommitted_delete_def link_in_list_def)
  have wf: "list_all staged_by_marking ?ops"
    by (simp add: staged_by_marking_def)
  have "get fst ?m (Some 1) ''k'' = spec_get fst ?ops (get_committed ?m ''k'') ''k''"
    using get_last_pending_operation [of ?m 1 ?ops fst "''k''"] ops wf by blast
  then show ?thesis
    by (simp add: spec_get_def spec_touches_def)
qed

lemma map_of_map_assign: "map_of (map_assign k v m) = (map_of m)(k \<mapsto> v)"
  by (induction m) (auto simp: fun_eq_iff)

lemma map_of_map_erase: "map_of (map_erase k m) = (map_of m)(k := None)"
  by (induction m) (auto simp: map_erase_def fun_eq_iff)

lemma committed_view_assign:
  "committed_view (map_assign k \<lparr>pointee = e, use_count = n\<rparr> c) = (committed_view c)(k \<mapsto> e)"
  by (simp add: committed_view_def map_find_def map_of_map_assign fun_eq_iff)

lemma committed_view_erase:
  "committed_view (map_erase k c) = (committed_view c)(k := None)"
  by (simp add: committed_view_def map_find_def map_of_map_erase fun_eq_iff)

lemma committed_view_commit_operation:
  "committed_view (commit_operation kf op c) = spec_apply kf op (committed_view c)"
  by (cases "op_type op"; cases "entry op")
     (simp_all add: commit_operation_def spec_apply_def Let_def
        committed_view_assign committed_view_erase)

lemma committed_view_commit_operations:
  "committed_view (commit_operations kf ops c) = spec_apply_all kf ops (committed_view c)"
  by (induction ops arbitrary: c)
     (simp_all add: spec_apply_all_def committed_view_commit_operation)

lemma get_committed_view: "get_committed m k = committed_view (m_committed m) k"
  by (simp add: get_committed_def committed_view_def)

lemma spec_apply_all_append:
  "spec_apply_all kf (xs @ ys) c = spec_apply_all kf ys (spec_apply_all kf xs c)"
  by (simp add: spec_apply_all_def)

lemma commit_committed_view:
  "m_uncommitted m t = Some ops \<Longrightarrow>
   committed_view (m_committed (commit kf m (Some t))) =
     spec_apply_all kf ops (committed_view (m_committed m))"
  by (simp add: commit_def committed_view_commit_operations)

text \<open>
  Claim C2. \<open>commit\<close> applies the pending operations of the session to the committed map
  in staging order: for every key, \<open>get_committed\<close> after the commit is the result of
  folding the pending list over the committed state before it, and the pending list of
  the session is gone. A DELETE followed by an INSERT on the same key leaves the
  inserted entry; an UPDATE that renames followed by a DELETE of the old key leaves the
  new key only.
\<close>

theorem commit_applies_in_staging_order:
  "m_uncommitted m t = Some ops \<Longrightarrow>
   get_committed (commit kf m (Some t)) k =
     spec_apply_all kf ops (\<lambda>k'. get_committed m k') k \<and>
   m_uncommitted (commit kf m (Some t)) t = None \<and>
   (ops = before @ [\<lparr>op_type = DELETE, entry = None, key = kf e\<rparr>,
                    \<lparr>op_type = INSERT, entry = Some e, key = []\<rparr>]
      \<longrightarrow> get_committed (commit kf m (Some t)) (kf e) = Some e) \<and>
   (ops = before @ [\<lparr>op_type = UPDATE, entry = Some e, key = old_key\<rparr>,
                    \<lparr>op_type = DELETE, entry = None, key = old_key\<rparr>] \<and>
    old_key \<noteq> [] \<and> old_key \<noteq> kf e
      \<longrightarrow> get_committed (commit kf m (Some t)) old_key = None \<and>
          get_committed (commit kf m (Some t)) (kf e) = Some e)"
proof -
  assume ops: "m_uncommitted m t = Some ops"
  have view: "(\<lambda>k'. get_committed m k') = committed_view (m_committed m)"
    by (simp add: get_committed_view fun_eq_iff)
  have after: "get_committed (commit kf m (Some t)) k' =
                 spec_apply_all kf ops (committed_view (m_committed m)) k'" for k'
    by (simp add: get_committed_view commit_committed_view [OF ops])
  have "get_committed (commit kf m (Some t)) k =
          spec_apply_all kf ops (\<lambda>k'. get_committed m k') k"
    by (simp add: view after)
  moreover have "m_uncommitted (commit kf m (Some t)) t = None"
    using ops by (simp add: commit_def)
  moreover have "get_committed (commit kf m (Some t)) (kf e) = Some e"
    if "ops = before @ [\<lparr>op_type = DELETE, entry = None, key = kf e\<rparr>,
                        \<lparr>op_type = INSERT, entry = Some e, key = []\<rparr>]"
    by (simp add: after that spec_apply_all_append)
       (simp add: spec_apply_all_def spec_apply_def)
  moreover have "get_committed (commit kf m (Some t)) old_key = None \<and>
                 get_committed (commit kf m (Some t)) (kf e) = Some e"
    if "ops = before @ [\<lparr>op_type = UPDATE, entry = Some e, key = old_key\<rparr>,
                        \<lparr>op_type = DELETE, entry = None, key = old_key\<rparr>]"
      and "old_key \<noteq> []" and "old_key \<noteq> kf e"
    using that(2,3)
    by (simp add: after that(1) spec_apply_all_append)
       (simp add: spec_apply_all_def spec_apply_def)
  ultimately show ?thesis by blast
qed

text \<open>
  A committed entry under \<open>a\<close>; the session renames it to \<open>b\<close> and then deletes \<open>a\<close>.
\<close>

theorem commit_applies_in_staging_order_witness:
  "get_committed
     (commit fst
        \<lparr>m_committed = [(''a'', \<lparr>pointee = (''a'', 1::nat), use_count = 1\<rparr>)],
         m_uncommitted = (\<lambda>t. None)((1::nat) \<mapsto>
           [\<lparr>op_type = UPDATE, entry = Some (''b'', 2), key = ''a''\<rparr>,
            \<lparr>op_type = DELETE, entry = None, key = ''a''\<rparr>])\<rparr>
        (Some 1)) ''a'' = None \<and>
   get_committed
     (commit fst
        \<lparr>m_committed = [(''a'', \<lparr>pointee = (''a'', 1::nat), use_count = 1\<rparr>)],
         m_uncommitted = (\<lambda>t. None)((1::nat) \<mapsto>
           [\<lparr>op_type = UPDATE, entry = Some (''b'', 2), key = ''a''\<rparr>,
            \<lparr>op_type = DELETE, entry = None, key = ''a''\<rparr>])\<rparr>
        (Some 1)) ''b'' = Some (''b'', 2)"
proof -
  let ?ops = "[\<lparr>op_type = UPDATE, entry = Some (''b'', 2::nat), key = ''a''\<rparr>,
               \<lparr>op_type = DELETE, entry = None, key = ''a''\<rparr>]"
  let ?m = "\<lparr>m_committed = [(''a'', \<lparr>pointee = (''a'', 1::nat), use_count = 1\<rparr>)],
             m_uncommitted = (\<lambda>t. None)((1::nat) \<mapsto> ?ops)\<rparr>"
  have staged: "m_uncommitted ?m 1 = Some ?ops" by simp
  have rename: "?ops = [] @ ?ops \<and> ''a'' \<noteq> [] \<and> ''a'' \<noteq> fst (''b'', 2::nat)" by simp
  from commit_applies_in_staging_order
         [OF staged, of fst "''a''" "[]" "(''b'', 2)" "''a''"] rename
  have "get_committed (commit fst ?m (Some 1)) ''a'' = None \<and>
        get_committed (commit fst ?m (Some 1)) (fst (''b'', 2::nat)) = Some (''b'', 2)"
    by blast
  then show ?thesis by simp
qed

section \<open>The staged map: prefix scans\<close>

text \<open>
  The committed map keeps its keys strictly increasing; assignment, erasure and therefore
  \<open>commit\<close> preserve that.
\<close>

lemma of_char_next_byte:
  "c \<noteq> CHR 0xFF \<Longrightarrow> (of_char (next_byte c) :: nat) = of_char c + 1"
proof -
  assume "c \<noteq> CHR 0xFF"
  have "(of_char c :: nat) < 256" by simp
  moreover have "(of_char c :: nat) \<noteq> 255"
  proof
    assume "(of_char c :: nat) = 255"
    then have "char_of (of_char c :: nat) = char_of (255 :: nat)" by simp
    moreover have "char_of (255 :: nat) = CHR 0xFF" by code_simp
    ultimately have "c = CHR 0xFF" by simp
    with \<open>c \<noteq> CHR 0xFF\<close> show False by simp
  qed
  ultimately have "(of_char c :: nat) + 1 < 256" by arith
  then show ?thesis by (simp add: next_byte_def)
qed

lemma less_next_byte:
  "c \<noteq> CHR 0xFF \<Longrightarrow> (c \<le> x \<and> x < next_byte c) = (x = c)"
proof -
  assume c: "c \<noteq> CHR 0xFF"
  have "(c \<le> x \<and> x < next_byte c) =
        ((of_char c :: nat) \<le> of_char x \<and> (of_char x :: nat) < of_char (next_byte c))"
    by (simp add: less_eq_char_def less_char_def)
  also have "\<dots> = ((of_char x :: nat) = of_char c)"
    unfolding of_char_next_byte [OF c] by arith
  also have "\<dots> = (x = c)" by simp
  finally show ?thesis .
qed

lemma between_prefix_and_upper:
  "p \<noteq> [] \<Longrightarrow> last p \<noteq> CHR 0xFF \<Longrightarrow>
   (p \<le> k \<and> k < upper_bound_of_prefix p) = prefix p k"
proof (induction p arbitrary: k)
  case Nil
  then show ?case by simp
next
  case (Cons c q)
  show ?case
  proof (cases k)
    case Nil
    then show ?thesis by (simp add: upper_bound_of_prefix_def)
  next
    case (Cons x xs)
    show ?thesis
    proof (cases "q = []")
      case True
      with Cons.prems have c: "c \<noteq> CHR 0xFF" by simp
      have "(c \<le> x \<and> x < next_byte c) = (x = c)" by (rule less_next_byte [OF c])
      with True Cons show ?thesis
        by (auto simp: upper_bound_of_prefix_def)
    next
      case False
      with Cons.prems have "last q \<noteq> CHR 0xFF" by simp
      from Cons.IH [OF False this, of xs]
      have IH: "(q \<le> xs \<and> xs < upper_bound_of_prefix q) = prefix q xs" .
      have up: "upper_bound_of_prefix (c # q) = c # upper_bound_of_prefix q"
        using False by (simp add: upper_bound_of_prefix_def)
      show ?thesis
        using IH by (auto simp: up Cons)
    qed
  qed
qed

lemma range_scan_is_filter:
  "sorted_wrt (<) (map fst c) \<Longrightarrow>
   takeWhile (\<lambda>kv. fst kv < u) (dropWhile (\<lambda>kv. fst kv < (p::string)) c) =
     filter (\<lambda>kv. p \<le> fst kv \<and> fst kv < u) c"
proof (induction c)
  case Nil
  then show ?case by simp
next
  case (Cons kv c)
  then have later: "\<forall>kv' \<in> set c. fst kv < fst kv'" and sorted: "sorted_wrt (<) (map fst c)"
    by auto
  show ?case
  proof (cases "fst kv < p")
    case True
    then show ?thesis using Cons.IH [OF sorted] by auto
  next
    case False
    then have ge: "p \<le> fst kv" by simp
    have all_ge: "\<forall>kv' \<in> set c. \<not> fst kv' < p"
      using later ge by (meson less_le_not_le order.strict_trans2 order_less_imp_le)
    then have drop: "dropWhile (\<lambda>kv. fst kv < p) c = c"
      by (cases c) auto
    show ?thesis
    proof (cases "fst kv < u")
      case True
      then show ?thesis using False ge Cons.IH [OF sorted] drop by simp
    next
      case nu: False
      have "\<forall>kv' \<in> set c. \<not> fst kv' < u"
        using later nu by (meson less_trans)
      then have "filter (\<lambda>kv. p \<le> fst kv \<and> fst kv < u) c = []"
        by (simp add: filter_empty_conv)
      then show ?thesis using False nu by simp
    qed
  qed
qed

lemma keys_map_assign:
  "set (map fst (map_assign k v m)) = insert k (set (map fst m))"
  by (induction m) (force split: if_splits)+

lemma sorted_keys_map_assign: "sorted_keys m \<Longrightarrow> sorted_keys (map_assign k v m)"
proof (induction m)
  case Nil
  then show ?case by (simp add: sorted_keys_def)
next
  case (Cons kv m)
  obtain k' v' where kv: "kv = (k', v')" by (cases kv)
  from Cons have tail: "sorted_wrt (<) (map fst (map_assign k v m))"
    and later: "\<forall>x \<in> set (map fst m). k' < x"
    and sorted: "sorted_wrt (<) (map fst m)"
    by (simp_all add: sorted_keys_def kv)
  show ?case
  proof (cases "k < k'")
    case True
    with later sorted show ?thesis
      by (auto simp: sorted_keys_def kv)
  next
    case False
    show ?thesis
    proof (cases "k = k'")
      case True
      with later sorted show ?thesis by (simp add: sorted_keys_def kv)
    next
      case ne: False
      with False have "k' < k" by simp
      with later have "\<forall>x \<in> set (map fst (map_assign k v m)). k' < x"
        unfolding keys_map_assign by simp
      with tail False ne show ?thesis
        by (simp add: sorted_keys_def kv)
    qed
  qed
qed

lemma sorted_keys_map_erase: "sorted_keys m \<Longrightarrow> sorted_keys (map_erase k m)"
  by (simp add: sorted_keys_def map_erase_def sorted_wrt_map sorted_wrt_filter)

lemma sorted_keys_commit_operations:
  "sorted_keys c \<Longrightarrow> sorted_keys (commit_operations kf ops c)"
  by (induction ops arbitrary: c)
     (auto simp: commit_operation_def Let_def sorted_keys_map_assign sorted_keys_map_erase
        split: OperationType.splits option.splits)

lemma sorted_keys_commit:
  "sorted_keys (m_committed m) \<Longrightarrow> sorted_keys (m_committed (commit kf m thd))"
  by (auto simp: commit_def sorted_keys_commit_operations split: option.splits)

lemma next_byte_dot: "next_byte CHR ''.'' = CHR ''/''"
  by code_simp

text \<open>
  Claim C6, as stated, fails: the scan starts at \<^verbatim>\<open>lower_bound(prefix_str)\<close>, which
  includes a key equal to the prefix string. The key of a column entry with an empty
  column name is the prefix string of its table, and the entry is returned although the
  prefix is not a strict prefix of its key.
\<close>

theorem prefix_scan_strict_counterexample:
  "mset (get_prefix_committed
           \<lparr>m_committed = [(column_key_str unnamed_column,
                             \<lparr>pointee = unnamed_column, use_count = 1\<rparr>)],
            m_uncommitted = (\<lambda>t. None)\<rparr>
           (ColumnKeyPrefix 0 ''a'' ''b''))
   \<noteq> mset (map (\<lambda>kv. pointee (snd kv))
             (filter (\<lambda>kv. strict_prefix (ColumnKeyPrefix 0 ''a'' ''b'') (fst kv))
                [(column_key_str unnamed_column,
                  \<lparr>pointee = unnamed_column, use_count = 1\<rparr>)]))"
  by (simp add: get_prefix_committed_def lower_bound_def upper_bound_of_prefix_def next_byte_dot
      column_key_str_def unnamed_column_def ColumnKey_def ColumnKeyPrefix_def
      normalize_database_name_def normalize_table_name_def normalize_column_name_def casedn_def)

text \<open>
  Claim C6, amended. For a prefix string that is not empty and does not end in the byte
  0xFF (the strings of both prefix key types end in a dot), \<open>get_prefix_committed\<close>
  returns, in key order, exactly the committed entries whose key has the prefix string as
  a prefix, a key equal to the prefix string included; in particular the multisets agree.
  For the empty prefix string it returns nothing. For every prefix string,
  \<open>has_prefix_committed\<close> holds exactly when \<open>get_prefix_committed\<close> is not empty.
\<close>

theorem prefix_scan_returns_keys_with_prefix:
  "sorted_keys (m_committed m) \<Longrightarrow>
   (prefix_str \<noteq> [] \<and> last prefix_str \<noteq> CHR 0xFF \<longrightarrow>
      get_prefix_committed m prefix_str =
        map (\<lambda>kv. pointee (snd kv))
          (filter (\<lambda>kv. prefix prefix_str (fst kv)) (m_committed m))) \<and>
   (prefix_str = [] \<longrightarrow> get_prefix_committed m prefix_str = []) \<and>
   has_prefix_committed m prefix_str = (get_prefix_committed m prefix_str \<noteq> [])"
proof -
  assume sorted: "sorted_keys (m_committed m)"
  have scan: "get_prefix_committed m prefix_str =
        map (\<lambda>kv. pointee (snd kv))
          (filter (\<lambda>kv. prefix prefix_str (fst kv)) (m_committed m))"
    if "prefix_str \<noteq> []" and "last prefix_str \<noteq> CHR 0xFF"
    using sorted that
    by (simp add: get_prefix_committed_def lower_bound_def sorted_keys_def
        range_scan_is_filter between_prefix_and_upper)
  have has: "has_prefix_committed m prefix_str = (get_prefix_committed m prefix_str \<noteq> [])"
    by (cases "lower_bound prefix_str (m_committed m)")
       (simp_all add: has_prefix_committed_def get_prefix_committed_def Let_def)
  from scan has show ?thesis
    by (simp add: get_prefix_committed_def)
qed


theorem prefix_scan_returns_keys_with_prefix_witness:
  "get_prefix_committed
     \<lparr>m_committed = [(''a.b.'', \<lparr>pointee = 1::nat, use_count = 1\<rparr>),
                     (''a.b.c'', \<lparr>pointee = 2, use_count = 1\<rparr>),
                     (''a.c.x'', \<lparr>pointee = 3, use_count = 1\<rparr>)],
      m_uncommitted = (\<lambda>t. None)\<rparr> ''a.b.'' = [1, 2] \<and>
   has_prefix_committed
     \<lparr>m_committed = [(''a.b.'', \<lparr>pointee = 1::nat, use_count = 1\<rparr>),
                     (''a.b.c'', \<lparr>pointee = 2, use_count = 1\<rparr>),
                     (''a.c.x'', \<lparr>pointee = 3, use_count = 1\<rparr>)],
      m_uncommitted = (\<lambda>t. None)\<rparr> ''a.b.''"
proof -
  let ?m = "\<lparr>m_committed = [(''a.b.'', \<lparr>pointee = 1::nat, use_count = 1\<rparr>),
                     (''a.b.c'', \<lparr>pointee = 2, use_count = 1\<rparr>),
                     (''a.c.x'', \<lparr>pointee = 3, use_count = 1\<rparr>)],
      m_uncommitted = (\<lambda>t. None)\<rparr>"
  have sorted: "sorted_keys (m_committed ?m)"
    by (simp add: sorted_keys_def)
  have p: "''a.b.'' \<noteq> [] \<and> last ''a.b.'' \<noteq> CHR 0xFF" by simp
  from prefix_scan_returns_keys_with_prefix [OF sorted, of "''a.b.''"] p
  have "get_prefix_committed ?m ''a.b.'' =
          map (\<lambda>kv. pointee (snd kv)) (filter (\<lambda>kv. prefix ''a.b.'' (fst kv)) (m_committed ?m))"
    and "has_prefix_committed ?m ''a.b.'' = (get_prefix_committed ?m ''a.b.'' \<noteq> [])"
    by blast+
  then show ?thesis by simp
qed

section \<open>DDL staging order\<close>

lemma pending_link_in_list: "pending (link_in_list m t op) t = pending m t @ [op]"
  by (simp add: pending_def link_in_list_def)

lemma committed_link_in_list: "m_committed (link_in_list m t op) = m_committed m"
  by (simp add: link_in_list_def)

lemma mark_removals_appends:
  "\<exists>m'. mark_removals t es (marked, m) = (False, marked \<or> es \<noteq> [], m') \<and>
        pending m' t = pending m t @
          map (\<lambda>e. \<lparr>op_type = DELETE, entry = None, key = ck_normalized_key (col_key e)\<rparr>) es \<and>
        m_committed m' = m_committed m"
proof (induction es arbitrary: marked m)
  case Nil
  then show ?case by simp
next
  case (Cons e es)
  let ?m1 = "link_in_list m t \<lparr>op_type = DELETE, entry = None, key = ck_normalized_key (col_key e)\<rparr>"
  from Cons.IH [of True ?m1] obtain m' where
    "mark_removals t es (True, ?m1) = (False, True, m')"
    "pending m' t = pending ?m1 t @
       map (\<lambda>e. \<lparr>op_type = DELETE, entry = None, key = ck_normalized_key (col_key e)\<rparr>) es"
    "m_committed m' = m_committed ?m1"
    by auto
  then show ?case
    by (simp add: MarkForDeletion_def add_uncommitted_delete_def pending_link_in_list
        committed_link_in_list)
qed

lemma mark_renames_appends:
  "\<exists>m'. mark_renames t rs (marked, m) = (False, marked \<or> rs \<noteq> [], m') \<and>
        pending m' t = pending m t @
          map (\<lambda>(new_entry, old_key).
                 \<lparr>op_type = UPDATE, entry = Some new_entry, key = ck_normalized_key old_key\<rparr>) rs \<and>
        m_committed m' = m_committed m"
proof (induction rs arbitrary: marked m)
  case Nil
  then show ?case by simp
next
  case (Cons r rs)
  obtain new_entry old_key where r: "r = (new_entry, old_key)" by (cases r)
  let ?m1 = "link_in_list m t
               \<lparr>op_type = UPDATE, entry = Some new_entry, key = ck_normalized_key old_key\<rparr>"
  from Cons.IH [of True ?m1] obtain m' where
    "mark_renames t rs (True, ?m1) = (False, True, m')"
    "pending m' t = pending ?m1 t @
       map (\<lambda>(new_entry, old_key).
              \<lparr>op_type = UPDATE, entry = Some new_entry, key = ck_normalized_key old_key\<rparr>) rs"
    "m_committed m' = m_committed ?m1"
    by auto
  then show ?case
    by (simp add: r MarkForUpdate_def add_uncommitted_insert_or_update_def pending_link_in_list
        committed_link_in_list)
qed

lemma mark_additions_appends:
  "\<exists>m'. mark_additions t es (marked, m) = (False, marked \<or> es \<noteq> [], m') \<and>
        pending m' t = pending m t @
          map (\<lambda>e. \<lparr>op_type = INSERT, entry = Some e, key = []\<rparr>) es \<and>
        m_committed m' = m_committed m"
proof (induction es arbitrary: marked m)
  case Nil
  then show ?case by simp
next
  case (Cons e es)
  let ?m1 = "link_in_list m t \<lparr>op_type = INSERT, entry = Some e, key = []\<rparr>"
  from Cons.IH [of True ?m1] obtain m' where
    "mark_additions t es (True, ?m1) = (False, True, m')"
    "pending m' t = pending ?m1 t @ map (\<lambda>e. \<lparr>op_type = INSERT, entry = Some e, key = []\<rparr>) es"
    "m_committed m' = m_committed ?m1"
    by auto
  then show ?case
    by (simp add: MarkForInsertion_def add_uncommitted_insert_or_update_def pending_link_in_list
        committed_link_in_list)
qed

lemma commit_view_pending:
  "committed_view (m_committed (commit kf m (Some t))) =
     spec_apply_all kf (pending m t) (committed_view (m_committed m))"
  by (cases "m_uncommitted m t")
     (simp_all add: commit_def pending_def committed_view_commit_operations spec_apply_all_def)

lemma spec_apply_all_insertions_elsewhere:
  "k \<notin> set (map kf es) \<Longrightarrow>
   spec_apply_all kf (map (\<lambda>e. \<lparr>op_type = INSERT, entry = Some e, key = []\<rparr>) es) f k = f k"
  by (induction es arbitrary: f) (simp_all add: spec_apply_all_def spec_apply_def)

lemma spec_apply_all_last_insertion:
  assumes "k = kf e" and "kf e \<notin> set (map kf later)"
  shows "spec_apply_all kf
           (before @ map (\<lambda>e. \<lparr>op_type = INSERT, entry = Some e, key = []\<rparr>) (earlier @ e # later))
           f k = Some e"
proof -
  let ?ins = "\<lambda>e. \<lparr>op_type = INSERT, entry = Some e, key = []\<rparr>"
  have "spec_apply_all kf (before @ map ?ins (earlier @ e # later)) f =
        spec_apply_all kf (map ?ins later)
          (spec_apply kf (?ins e) (spec_apply_all kf (before @ map ?ins earlier) f))"
    by (simp add: spec_apply_all_def)
  then show ?thesis
    using assms by (simp add: spec_apply_all_insertions_elsewhere) (simp add: spec_apply_def)
qed

text \<open>
  Claim C5. \<open>mark_victionary_modifications\<close> appends to the session's pending list of
  the columns map first a DELETE for every entry of \<open>to_remove\<close>, then an UPDATE with
  its old key for every pair of \<open>to_rename\<close>, then an INSERT for every entry of
  \<open>to_add\<close>, whatever the vectors hold, and clears the vectors. With the in-order commit,
  an entry of \<open>to_add\<close> that no later entry of \<open>to_add\<close> replaces is committed under its
  key: a custom-to-custom MODIFY, which removes a key and adds an entry under the same
  key, ends with the added entry.
\<close>

theorem removals_renames_insertions_in_order:
  "m_initialized vclient \<Longrightarrow>
   mark_victionary_modifications mm vclient (Some t) = (err, marked, mm', vclient') \<Longrightarrow>
   \<not> err \<and>
   pending (m_columns vclient') t =
     pending (m_columns vclient) t @
     map (\<lambda>e. \<lparr>op_type = DELETE, entry = None, key = ck_normalized_key (col_key e)\<rparr>)
       (to_remove mm) @
     map (\<lambda>(new_entry, old_key).
            \<lparr>op_type = UPDATE, entry = Some new_entry, key = ck_normalized_key old_key\<rparr>)
       (to_rename mm) @
     map (\<lambda>e. \<lparr>op_type = INSERT, entry = Some e, key = []\<rparr>) (to_add mm) \<and>
   to_remove mm' = [] \<and> to_rename mm' = [] \<and> to_add mm' = [] \<and>
   (to_add mm = earlier @ e # later \<and> column_key_str e \<notin> set (map column_key_str later)
      \<longrightarrow> get_committed (commit column_key_str (m_columns vclient') (Some t)) (column_key_str e)
            = Some e)"
proof -
  assume init: "m_initialized vclient"
    and run: "mark_victionary_modifications mm vclient (Some t) = (err, marked, mm', vclient')"
  let ?del = "\<lambda>e. \<lparr>op_type = DELETE, entry = None, key = ck_normalized_key (col_key e)\<rparr>"
  let ?upd = "\<lambda>(new_entry, old_key).
                \<lparr>op_type = UPDATE, entry = Some new_entry, key = ck_normalized_key old_key\<rparr>"
  let ?ins = "\<lambda>e. \<lparr>op_type = INSERT, entry = Some e, key = []\<rparr>"
  obtain m1 where s1: "mark_removals t (to_remove mm) (False, m_columns vclient) =
                         (False, False \<or> to_remove mm \<noteq> [], m1)"
    and p1: "pending m1 t = pending (m_columns vclient) t @ map ?del (to_remove mm)"
    using mark_removals_appends [of t "to_remove mm" False "m_columns vclient"] by blast
  obtain m2 where s2: "mark_renames t (to_rename mm) (to_remove mm \<noteq> [], m1) =
                         (False, to_remove mm \<noteq> [] \<or> to_rename mm \<noteq> [], m2)"
    and p2: "pending m2 t = pending m1 t @ map ?upd (to_rename mm)"
    using mark_renames_appends [of t "to_rename mm" "to_remove mm \<noteq> []" m1] by blast
  obtain m3 where s3: "mark_additions t (to_add mm)
                         (to_remove mm \<noteq> [] \<or> to_rename mm \<noteq> [], m2) =
                         (False, (to_remove mm \<noteq> [] \<or> to_rename mm \<noteq> []) \<or> to_add mm \<noteq> [], m3)"
    and p3: "pending m3 t = pending m2 t @ map ?ins (to_add mm)"
    using mark_additions_appends
            [of t "to_add mm" "to_remove mm \<noteq> [] \<or> to_rename mm \<noteq> []" m2] by blast
  from run init s1 s2 s3
  have res: "err = False" "mm' = mm\<lparr>to_remove := [], to_rename := [], to_add := []\<rparr>"
    "vclient' = vclient\<lparr>m_columns := m3\<rparr>"
    by (simp_all add: mark_victionary_modifications_def)
  have order: "pending (m_columns vclient') t =
     pending (m_columns vclient) t @ map ?del (to_remove mm) @ map ?upd (to_rename mm) @
     map ?ins (to_add mm)"
    by (simp add: res p1 p2 p3)
  have modify: "get_committed (commit column_key_str (m_columns vclient') (Some t)) (column_key_str e)
            = Some e"
    if "to_add mm = earlier @ e # later" and "column_key_str e \<notin> set (map column_key_str later)"
  proof -
    have "pending (m_columns vclient') t =
            (pending (m_columns vclient) t @ map ?del (to_remove mm) @ map ?upd (to_rename mm)) @
            map ?ins (earlier @ e # later)"
      using order that(1) by simp
    then show ?thesis
      using spec_apply_all_last_insertion [OF refl that(2)]
      by (simp only: get_committed_view commit_view_pending)
  qed
  from res order modify show ?thesis by simp
qed


text \<open>
  The MODIFY of column \<open>c\<close>: before, the old entry is committed under \<open>a.b.c\<close>; after
  staging and commit, the new one is.
\<close>

theorem removals_renames_insertions_in_order_witness:
  "get_committed (m_columns victionary_with_column) ''a.b.c'' = Some old_column \<and>
   get_committed
     (commit column_key_str
        (m_columns (snd (snd (snd
           (mark_victionary_modifications column_modification victionary_with_column (Some 1))))))
        (Some 1)) ''a.b.c'' = Some new_column"
proof -
  let ?r = "mark_victionary_modifications column_modification victionary_with_column (Some 1)"
  have init: "m_initialized victionary_with_column"
    by (simp add: victionary_with_column_def)
  have run: "?r = (fst ?r, fst (snd ?r), fst (snd (snd ?r)), snd (snd (snd ?r)))"
    by simp
  have add: "to_add column_modification = [] @ new_column # [] \<and>
             column_key_str new_column \<notin> set (map column_key_str [])"
    by (simp add: column_modification_def)
  have k: "column_key_str new_column = ''a.b.c''"
    by (simp add: column_key_str_def new_column_def ColumnKey_def normalize_database_name_def
      normalize_table_name_def normalize_column_name_def casedn_def lower_char_def)
  from removals_renames_insertions_in_order [OF init run, of "[]" new_column "[]"] add
  have "get_committed (commit column_key_str (m_columns (snd (snd (snd ?r)))) (Some 1))
          (column_key_str new_column) = Some new_column"
    by blast
  moreover have "get_committed (m_columns victionary_with_column) ''a.b.c'' = Some old_column"
    by (simp add: victionary_with_column_def committed_map_def get_committed_def map_find_def
      column_key_str_def old_column_def ColumnKey_def normalize_database_name_def
      normalize_table_name_def normalize_column_name_def casedn_def lower_char_def)
  ultimately show ?thesis by (simp add: k)
qed
section \<open>Type contexts and their descriptors\<close>






















text \<open>
  The two facts about the committed type descriptors hold of the empty map and are kept by
  \<open>commit\<close>, which stores every entry under the string of its own key; a pending entry
  whose key was made by the constructor stays so.
\<close>

lemma list_all_map_assign:
  "list_all Q c \<Longrightarrow> Q (k, p) \<Longrightarrow> list_all Q (map_assign k p c)"
  by (induction c) auto

lemma list_all_map_erase: "list_all Q c \<Longrightarrow> list_all Q (map_erase k c)"
  by (simp add: map_erase_def list_all_iff)

lemma list_all_commit_operation:
  assumes "list_all Q c"
    and "\<And>e. op_type op \<noteq> DELETE \<Longrightarrow> entry op = Some e \<Longrightarrow>
           Q (kf e, \<lparr>pointee = e, use_count = 1\<rparr>)"
  shows "list_all Q (commit_operation kf op c)"
  using assms
  by (cases "op_type op"; cases "entry op")
     (simp_all add: commit_operation_def Let_def list_all_map_assign list_all_map_erase)

lemma list_all_commit_operations:
  assumes "list_all Q c"
    and "\<And>op e. op \<in> set ops \<Longrightarrow> op_type op \<noteq> DELETE \<Longrightarrow> entry op = Some e \<Longrightarrow>
           Q (kf e, \<lparr>pointee = e, use_count = 1\<rparr>)"
  shows "list_all Q (commit_operations kf ops c)"
  using assms
proof (induction ops arbitrary: c)
  case Nil
  then show ?case by simp
next
  case (Cons op ops)
  have "list_all Q (commit_operation kf op c)"
    using Cons.prems by (intro list_all_commit_operation) auto
  then have "list_all Q (commit_operations kf ops (commit_operation kf op c))"
    using Cons.prems(2) by (intro Cons.IH) auto
  then show ?case by simp
qed

lemma commit_keeps_stored_under_own_key:
  assumes "stored_under_own_key kf (m_committed m)"
  shows "stored_under_own_key kf (m_committed (commit kf m thd))"
  using assms list_all_commit_operations
    [of "\<lambda>kv. kf (pointee (snd kv)) = fst kv" "m_committed m" _ kf]
  by (auto simp: commit_def stored_under_own_key_def split: option.splits)

lemma commit_keeps_committed_property:
  assumes "list_all P (get_all_committed m)"
    and "\<And>t ops op e. thd = Some t \<Longrightarrow> m_uncommitted m t = Some ops \<Longrightarrow> op \<in> set ops \<Longrightarrow>
           op_type op \<noteq> DELETE \<Longrightarrow> entry op = Some e \<Longrightarrow> P e"
  shows "list_all P (get_all_committed (commit kf m thd))"
proof (cases thd)
  case None
  with assms show ?thesis by (simp add: commit_def)
next
  case (Some t)
  show ?thesis
  proof (cases "m_uncommitted m t")
    case None
    with Some assms show ?thesis by (simp add: commit_def)
  next
    case (Some ops)
    have "list_all (\<lambda>kv. P (pointee (snd kv))) (commit_operations kf ops (m_committed m))"
      using assms(1) assms(2) [OF \<open>thd = Some t\<close> Some]
      by (intro list_all_commit_operations)
         (auto simp: get_all_committed_def list_all_iff)
    with \<open>thd = Some t\<close> Some show ?thesis
      by (simp add: commit_def get_all_committed_def list_all_iff)
  qed
qed

lemma TypeDescriptorKey_made_by_constructor:
  "td_key d = TypeDescriptorKey type_name extension_name extension_version \<Longrightarrow>
   made_by_constructor d"
  by (simp add: made_by_constructor_def TypeDescriptorKey_def)

lemma empty_map_well_formed:
  "stored_under_own_key kf (m_committed empty_map) \<and> list_all P (get_all_committed empty_map)"
  by (simp add: stored_under_own_key_def empty_map_def get_all_committed_def)

text \<open>
  So \<open>commit_all_tables\<close> keeps the committed type descriptors well formed when the
  pending descriptors are, and keeps the association of the committed contexts: the only
  operations that the server stages on type contexts are the deletions of UNINSTALL.
\<close>

lemma commit_all_tables_keeps_descriptors_well_formed:
  assumes "type_descriptors_well_formed v"
    and "\<And>t ops op e. thd = Some t \<Longrightarrow> m_uncommitted (m_type_descriptors v) t = Some ops \<Longrightarrow>
           op \<in> set ops \<Longrightarrow> op_type op \<noteq> DELETE \<Longrightarrow> entry op = Some e \<Longrightarrow>
           made_by_constructor e"
  shows "type_descriptors_well_formed (commit_all_tables v thd)"
  using assms(1)
    commit_keeps_stored_under_own_key [of type_descriptor_key_str "m_type_descriptors v" thd]
    commit_keeps_committed_property
      [of made_by_constructor "m_type_descriptors v" thd type_descriptor_key_str, OF _ assms(2)]
  by (simp add: type_descriptors_well_formed_def commit_all_tables_def)

lemma commit_all_tables_keeps_contexts_match:
  assumes "type_contexts_match v"
    and "\<And>t ops op. thd = Some t \<Longrightarrow> m_uncommitted (m_type_contexts v) t = Some ops \<Longrightarrow>
           op \<in> set ops \<Longrightarrow> op_type op = DELETE"
  shows "type_contexts_match (commit_all_tables v thd)"
  using assms(1)
    commit_keeps_committed_property
      [of descriptor_matches_key "m_type_contexts v" thd type_context_key_str]
    assms(2)
  by (auto simp: type_contexts_match_def commit_all_tables_def)

text \<open>
  With \<^verbatim>\<open>NDEBUG\<close> the constructor itself checks nothing, and \<open>create\<close> only the null
  pointer: the association of a context rests on what its two callers pass.
\<close>

lemma constructor_without_assertions:
  "TypeContext True k descriptor = Inr \<lparr>tc_descriptor = descriptor, tc_key = k\<rparr>"
  by (simp add: TypeContext_def)



section \<open>Semantic versions: comparisons\<close>

text \<open>
  Claim C9. When one of two versions is invalid, \<^verbatim>\<open>==\<close> and \<^verbatim>\<open><\<close> return false whatever
  the fields hold, and \<^verbatim>\<open>></\<close>, the negation of \<^verbatim>\<open><=\<close>, returns true in both directions.
  An invalid version is not equal to itself.
\<close>

theorem invalid_versions_compare_all_false:
  "\<not> is_valid a \<or> \<not> is_valid b \<Longrightarrow>
   \<not> Semver_eq a b \<and> Semver_lt a b = Inr False \<and>
   Semver_gt a b = Inr True \<and> Semver_gt b a = Inr True \<and>
   (\<not> is_valid a \<longrightarrow> \<not> Semver_eq a a)"
  by (auto simp: is_valid_def Semver_eq_def Semver_lt_def Semver_le_def Semver_gt_def)

lemma parse_leading_zero: "from_string ''01.2.3'' = Semver_default"
  by (simp add: from_string_def parse_def is_numeric_def isdigit_def)

theorem invalid_versions_compare_all_false_witness:
  "\<not> is_valid (from_string ''01.2.3'') \<and>
   \<not> Semver_eq (from_string ''01.2.3'') (from_string ''01.2.3'') \<and>
   Semver_lt (from_string ''01.2.3'') (from_string ''01.2.3'') = Inr False \<and>
   Semver_gt (from_string ''01.2.3'') (from_string ''01.2.3'') = Inr True"
proof -
  have invalid: "\<not> is_valid (from_string ''01.2.3'')"
    by (simp add: parse_leading_zero is_valid_def Semver_default_def)
  then have "\<not> is_valid (from_string ''01.2.3'') \<or> \<not> is_valid (from_string ''01.2.3'')"
    by simp
  from invalid_versions_compare_all_false [OF this] invalid show ?thesis by simp
qed

text \<open>
  The precedence chain of the SemVer specification, the equality of versions that differ in
  build metadata only, and the rejection of a leading zero, on the code.
\<close>

lemma precedence_chain:
  "Semver_lt (from_string ''1.0.0-alpha'') (from_string ''1.0.0-alpha.1'') = Inr True \<and>
   Semver_lt (from_string ''1.0.0-alpha.1'') (from_string ''1.0.0-alpha.beta'') = Inr True \<and>
   Semver_lt (from_string ''1.0.0-alpha.beta'') (from_string ''1.0.0-beta'') = Inr True \<and>
   Semver_lt (from_string ''1.0.0-beta'') (from_string ''1.0.0-beta.2'') = Inr True \<and>
   Semver_lt (from_string ''1.0.0-beta.2'') (from_string ''1.0.0-beta.11'') = Inr True \<and>
   Semver_lt (from_string ''1.0.0-beta.11'') (from_string ''1.0.0-rc.1'') = Inr True \<and>
   Semver_lt (from_string ''1.0.0-rc.1'') (from_string ''1.0.0'') = Inr True \<and>
   Semver_eq (from_string ''1.0.0+build1'') (from_string ''1.0.0+build2'') \<and>
   \<not> is_valid (from_string ''01.2.3'')"
  by code_simp

lemma build_metadata_ignored:
  "Semver_eq (a\<lparr>build_metadata := x\<rparr>) (b\<lparr>build_metadata := y\<rparr>) = Semver_eq a b \<and>
   Semver_lt (a\<lparr>build_metadata := x\<rparr>) (b\<lparr>build_metadata := y\<rparr>) = Semver_lt a b"
  by (simp add: Semver_eq_def Semver_lt_def compare_prerelease_def)

text \<open>
  Claim C7 says that for all valid versions numeric pre-release identifiers are compared
  numerically. \<open>parse\<close> accepts a numeric identifier of any length, but
  \<open>compare_prerelease\<close> converts with \<^verbatim>\<open>std::stoul\<close>, which throws \<^verbatim>\<open>std::out_of_range\<close>
  for a value above \<^verbatim>\<open>ULONG_MAX\<close>: both versions below are valid, and comparing them in
  either direction returns no result.
\<close>

theorem huge_numeric_prerelease_throws:
  "is_valid (from_string ''1.0.0-18446744073709551616'') \<and>
   is_valid (from_string ''1.0.0-1'') \<and>
   Semver_lt (from_string ''1.0.0-18446744073709551616'') (from_string ''1.0.0-1'')
     = Inl Out_of_range \<and>
   Semver_lt (from_string ''1.0.0-1'') (from_string ''1.0.0-18446744073709551616'')
     = Inl Out_of_range"
  by code_simp

theorem huge_numeric_prerelease_throws_witness:
  "Semver_lt (from_string ''1.0.0-1'') (from_string ''1.0.0-18446744073709551616'')
     \<noteq> Inr True"
  using huge_numeric_prerelease_throws by simp

section \<open>UNINSTALL EXTENSION\<close>

text \<open>
  Claim C3 says that the functions are unregistered and the shared object is unloaded
  only after the commit has succeeded. In \<open>execute\<close> both calls stand between
  \<open>write_all_uncommitted_entries\<close> and \<open>end_transaction\<close>, which performs the commit:
  the unload comes before the commit, and when the commit then fails the staged deletions
  are rolled back, so the extension descriptor stays committed while its shared object is
  already unloaded.
\<close>

theorem uninstall_unloads_before_commit:
  "fst (Sql_cmd_uninstall_extension_execute all_succeed 1 (Foo_installed 1) ''Foo'') = False \<and>
   fst (snd (Sql_cmd_uninstall_extension_execute all_succeed 1 (Foo_installed 1) ''Foo'')) =
     [Acquire_shared_global_read_lock, Acquire_shared_backup_lock,
      Lock_extension_exclusive ''Foo'', Open_and_lock_tables, Write_all_uncommitted_entries,
      Unregister_vdfs_from_extension ''Foo'', Unload_vef_extension Foo_registration, My_ok,
      Trans_commit] \<and>
   fst (Sql_cmd_uninstall_extension_execute (all_succeed\<lparr>commit_fails := True\<rparr>) 1
          (Foo_installed 1) ''Foo'') = True \<and>
   fst (snd (Sql_cmd_uninstall_extension_execute (all_succeed\<lparr>commit_fails := True\<rparr>) 1
          (Foo_installed 1) ''Foo'')) =
     [Acquire_shared_global_read_lock, Acquire_shared_backup_lock,
      Lock_extension_exclusive ''Foo'', Open_and_lock_tables, Write_all_uncommitted_entries,
      Unregister_vdfs_from_extension ''Foo'', Unload_vef_extension Foo_registration, My_ok,
      Trans_commit_failed, Trans_rollback] \<and>
   get_committed
     (m_extension_descriptors
        (snd (snd (Sql_cmd_uninstall_extension_execute (all_succeed\<lparr>commit_fails := True\<rparr>) 1
           (Foo_installed 1) ''Foo''))))
     ''foo.1.0.0'' = Some Foo_descriptor"
  by code_simp

theorem uninstall_unloads_before_commit_witness:
  "fst (snd (Sql_cmd_uninstall_extension_execute all_succeed 1 (Foo_installed 1) ''Foo'')) =
     [Acquire_shared_global_read_lock, Acquire_shared_backup_lock,
      Lock_extension_exclusive ''Foo'', Open_and_lock_tables, Write_all_uncommitted_entries,
      Unregister_vdfs_from_extension ''Foo'', Unload_vef_extension Foo_registration, My_ok,
      Trans_commit]"
  using uninstall_unloads_before_commit by simp

lemma count_columns_of_extension_filter:
  "count_columns_of_extension ext_entry cols cnt first_col =
     (cnt + length (filter (\<lambda>col. col_extension_name col = ext_extension_name ext_entry \<and>
                                col_extension_version col = ext_extension_version ext_entry) cols),
      if cnt = 0
      then (case filter (\<lambda>col. col_extension_name col = ext_extension_name ext_entry \<and>
                                col_extension_version col = ext_extension_version ext_entry) cols of
              [] \<Rightarrow> first_col
            | col # _ \<Rightarrow> Some col)
      else first_col)"
  by (induction cols arbitrary: cnt first_col) (auto split: list.splits)

lemma check_for_columns_of_extension_filter:
  "check_for_columns_of_extension ext_entry cols =
     (case filter (\<lambda>col. col_extension_name col = ext_extension_name ext_entry \<and>
                          col_extension_version col = ext_extension_version ext_entry) cols of
        [] \<Rightarrow> None
      | first_col # others \<Rightarrow>
          Some (Columns_depend (ext_extension_name ext_entry) (Suc (length others))
                  (ck_db (col_key first_col)) (ck_table (col_key first_col))
                  (ck_column (col_key first_col)) (col_type_name first_col)))"
  by (simp add: check_for_columns_of_extension_def count_columns_of_extension_filter
      split: list.splits)

lemma check_type_contexts_in_use_iff:
  "(check_type_contexts_in_use v name ext_entry tcs \<noteq> None) =
     (\<exists>tc \<in> set tcs. type_context_of_extension name ext_entry tc \<and>
        1 < get_use_count (m_type_contexts v) (type_context_key_str tc))"
  by (induction tcs) auto

lemma check_type_descriptors_in_use_iff:
  "(check_type_descriptors_in_use v name ext_entry tds \<noteq> None) =
     (\<exists>td \<in> set tds. type_descriptor_of_extension name ext_entry td \<and>
        1 < get_use_count (m_type_descriptors v) (type_descriptor_key_str td))"
  by (induction tds) auto

text \<open>
  What \<open>remove_extension_from_victionary\<close> does for an installed extension: it refuses
  exactly when a committed column names the stored extension name and version, or a
  committed type context or type descriptor that carries the statement's name and the
  stored version has more than one owner; a refusal leaves the Victionary as it was.
\<close>

lemma remove_extension_refuses_iff:
  assumes "get_committed (m_extensions v) (ek_normalized_key (ExtensionKey name)) = Some ext_entry"
  shows "refused (remove_extension_from_victionary thd v name) =
           ((\<exists>col \<in> set (get_all_committed (m_columns v)).
               col_extension_name col = ext_extension_name ext_entry \<and>
               col_extension_version col = ext_extension_version ext_entry) \<or>
            (\<exists>tc \<in> set (get_all_committed (m_type_contexts v)).
               type_context_of_extension name ext_entry tc \<and>
               1 < get_use_count (m_type_contexts v) (type_context_key_str tc)) \<or>
            (\<exists>td \<in> set (get_all_committed (m_type_descriptors v)).
               type_descriptor_of_extension name ext_entry td \<and>
               1 < get_use_count (m_type_descriptors v) (type_descriptor_key_str td)))"
    and "refused (remove_extension_from_victionary thd v name) \<Longrightarrow>
           victionary (remove_extension_from_victionary thd v name) = v"
proof -
  let ?cols = "filter (\<lambda>col. col_extension_name col = ext_extension_name ext_entry \<and>
                 col_extension_version col = ext_extension_version ext_entry)
                 (get_all_committed (m_columns v))"
  have cols: "(check_for_columns_of_extension ext_entry (get_all_committed (m_columns v)) \<noteq> None)
               = (\<exists>col \<in> set (get_all_committed (m_columns v)).
                    col_extension_name col = ext_extension_name ext_entry \<and>
                    col_extension_version col = ext_extension_version ext_entry)"
    by (cases ?cols) (auto simp: check_for_columns_of_extension_filter filter_empty_conv
        dest: filter_eq_ConsD)
  note tcs = check_type_contexts_in_use_iff
    [of v name ext_entry "get_all_committed (m_type_contexts v)"]
  note tds = check_type_descriptors_in_use_iff
    [of v name ext_entry "get_all_committed (m_type_descriptors v)"]
  show "refused (remove_extension_from_victionary thd v name) =
           ((\<exists>col \<in> set (get_all_committed (m_columns v)).
               col_extension_name col = ext_extension_name ext_entry \<and>
               col_extension_version col = ext_extension_version ext_entry) \<or>
            (\<exists>tc \<in> set (get_all_committed (m_type_contexts v)).
               type_context_of_extension name ext_entry tc \<and>
               1 < get_use_count (m_type_contexts v) (type_context_key_str tc)) \<or>
            (\<exists>td \<in> set (get_all_committed (m_type_descriptors v)).
               type_descriptor_of_extension name ext_entry td \<and>
               1 < get_use_count (m_type_descriptors v) (type_descriptor_key_str td)))"
    unfolding cols [symmetric] tcs [symmetric] tds [symmetric]
    using assms
    by (auto simp: remove_extension_from_victionary_def Let_def split: option.splits)
  show "victionary (remove_extension_from_victionary thd v name) = v"
    if "refused (remove_extension_from_victionary thd v name)"
    using that assms
    by (auto simp: remove_extension_from_victionary_def Let_def split: option.splits)
qed


text \<open>
  Claim C4 says that an uninstall is refused when a type context or type descriptor of the
  extension has a strong reference count above 1. The column check compares with the name
  stored in the extension entry, but the loops over type contexts and type descriptors
  compare with the name as written in the statement. The extension is found through its
  normalized key, so \<open>UNINSTALL EXTENSION foo\<close> finds the extension installed as
  \<open>Foo\<close>, skips its type context although that has two owners, is not refused, and
  stages the deletion of the extension entry but of none of its types. Under the
  installed spelling the same state is refused.
\<close>

theorem uninstall_under_other_case_skips_type_checks:
  "get_committed (m_extensions (Foo_installed 2)) (ek_normalized_key (ExtensionKey ''foo''))
     = Some Foo_extension \<and>
   get_all_committed (m_columns (Foo_installed 2)) = [] \<and>
   get_all_committed (m_type_contexts (Foo_installed 2)) = [Foo_context] \<and>
   tc_extension_name Foo_context = ext_extension_name Foo_extension \<and>
   tc_extension_version Foo_context = ext_extension_version Foo_extension \<and>
   get_use_count (m_type_contexts (Foo_installed 2)) (type_context_key_str Foo_context) = 2 \<and>
   refused (remove_extension_from_victionary 1 (Foo_installed 2) ''foo'') = False \<and>
   pending (m_type_contexts
              (victionary (remove_extension_from_victionary 1 (Foo_installed 2) ''foo''))) 1 = [] \<and>
   pending (m_type_descriptors
              (victionary (remove_extension_from_victionary 1 (Foo_installed 2) ''foo''))) 1 = [] \<and>
   pending (m_extensions
              (victionary (remove_extension_from_victionary 1 (Foo_installed 2) ''foo''))) 1
     = [\<lparr>op_type = DELETE, entry = None, key = ''foo''\<rparr>] \<and>
   reported (remove_extension_from_victionary 1 (Foo_installed 2) ''Foo'')
     = Some (Type_in_use ''Foo'' ''T'')"
  by code_simp

theorem uninstall_under_other_case_skips_type_checks_witness:
  "refused (remove_extension_from_victionary 1 (Foo_installed 2) ''foo'') = False \<and>
   refused (remove_extension_from_victionary 1 (Foo_installed 2) ''Foo'') = True"
proof -
  have "refused (remove_extension_from_victionary 1 (Foo_installed 2) ''Foo'') = True"
    by code_simp
  with uninstall_under_other_case_skips_type_checks show ?thesis by simp
qed

section \<open>Semantic versions: text and back\<close>

text \<open>
  The recursion equations of the decimal formatter and of the two identifier loops are
  unfolded by hand, one round at a time.
\<close>

declare format_lu.simps [simp del]
declare parse_prerelease_ids.simps [simp del]
declare parse_build_ids.simps [simp del]

lemma digit_cases:
  "0 \<le> d \<Longrightarrow> d < 10 \<Longrightarrow>
   d = 0 \<or> d = 1 \<or> d = 2 \<or> d = 3 \<or> d = 4 \<or> d = 5 \<or> d = 6 \<or> d = 7 \<or> d = 8 \<or> d = (9::int)"
  by arith

lemma digit_char_table:
  "digit_char 0 = CHR ''0''" "digit_char 1 = CHR ''1''" "digit_char 2 = CHR ''2''"
  "digit_char 3 = CHR ''3''" "digit_char 4 = CHR ''4''" "digit_char 5 = CHR ''5''"
  "digit_char 6 = CHR ''6''" "digit_char 7 = CHR ''7''" "digit_char 8 = CHR ''8''"
  "digit_char 9 = CHR ''9''"
  by code_simp+

lemma isdigit_digit_char: "0 \<le> d \<Longrightarrow> d < 10 \<Longrightarrow> isdigit (digit_char d)"
  using digit_cases [of d] by (auto simp: digit_char_table isdigit_def)

lemma digit_val_digit_char: "0 \<le> d \<Longrightarrow> d < 10 \<Longrightarrow> digit_val (digit_char d) = d"
  using digit_cases [of d] by (auto simp: digit_char_table digit_val_def)

lemma digit_char_zero: "0 < d \<Longrightarrow> d < 10 \<Longrightarrow> digit_char d \<noteq> CHR ''0''"
  using digit_cases [of d] by (auto simp: digit_char_table)

lemma format_lu_not_empty: "format_lu n \<noteq> []"
  by (subst format_lu.simps) simp

lemma format_lu_digits: "0 \<le> n \<Longrightarrow> list_all isdigit (format_lu n)"
proof (induction n rule: format_lu.induct)
  case (1 n)
  show ?case
  proof (cases "n < 10")
    case True
    with "1.prems" show ?thesis
      by (subst format_lu.simps) (simp add: isdigit_digit_char)
  next
    case False
    with "1.prems" have "0 \<le> n div 10" by simp
    with "1.IH" False have "list_all isdigit (format_lu (n div 10))" by simp
    moreover have "isdigit (digit_char (n mod 10))"
      by (rule isdigit_digit_char) simp_all
    ultimately show ?thesis using False
      by (subst format_lu.simps) simp
  qed
qed

lemma decimal_value_snoc:
  "decimal_value (xs @ [c]) = decimal_value xs * 10 + digit_val c"
  by (simp add: decimal_value_def)

lemma decimal_value_format_lu: "0 \<le> n \<Longrightarrow> decimal_value (format_lu n) = n"
proof (induction n rule: format_lu.induct)
  case (1 n)
  show ?case
  proof (cases "n < 10")
    case True
    with "1.prems" show ?thesis
      by (subst format_lu.simps) (simp add: decimal_value_def digit_val_digit_char)
  next
    case False
    with "1.prems" have "0 \<le> n div 10" by simp
    with "1.IH" False have "decimal_value (format_lu (n div 10)) = n div 10" by simp
    moreover have "digit_val (digit_char (n mod 10)) = n mod 10"
      by (rule digit_val_digit_char) simp_all
    ultimately show ?thesis using False
      by (subst format_lu.simps) (simp add: decimal_value_snoc)
  qed
qed

lemma format_lu_no_leading_zero: "0 < n \<Longrightarrow> hd (format_lu n) \<noteq> CHR ''0''"
proof (induction n rule: format_lu.induct)
  case (1 n)
  show ?case
  proof (cases "n < 10")
    case True
    with "1.prems" show ?thesis
      by (subst format_lu.simps) (simp add: digit_char_zero)
  next
    case False
    with "1.prems" have "0 < n div 10" by simp
    with "1.IH" False have "hd (format_lu (n div 10)) \<noteq> CHR ''0''" by simp
    then show ?thesis using False
      by (subst format_lu.simps) (simp add: format_lu_not_empty)
  qed
qed

lemma format_lu_single: "0 \<le> n \<Longrightarrow> 1 < length (format_lu n) \<Longrightarrow> 0 < n"
  by (subst (asm) format_lu.simps) (auto split: if_splits)

lemma format_lu_numeric:
  "0 \<le> n \<Longrightarrow> is_numeric (format_lu n) \<and>
     \<not> (1 < length (format_lu n) \<and> hd (format_lu n) = CHR ''0'')"
  using format_lu_no_leading_zero [of n] format_lu_single [of n]
  by (auto simp: is_numeric_def format_lu_not_empty format_lu_digits)

text \<open>Identifiers hold no dot and no plus sign, so the splitting loops find them again.\<close>

lemma isdigit_not_separator:
  "isdigit c \<Longrightarrow> c \<noteq> CHR ''.'' \<and> c \<noteq> CHR ''+'' \<and> c \<noteq> CHR ''-''"
  by (auto simp: isdigit_def)

lemma identifier_char_not_separator:
  "isalnum c \<or> c = CHR ''-'' \<Longrightarrow> c \<noteq> CHR ''.'' \<and> c \<noteq> CHR ''+''"
  by (auto simp: isalnum_def isdigit_def)

lemma valid_identifier_chars:
  "is_valid_identifier ident \<Longrightarrow>
   ident \<noteq> [] \<and> (\<forall>c \<in> set ident. c \<noteq> CHR ''.'' \<and> c \<noteq> CHR ''+'')"
  using identifier_char_not_separator
  by (auto simp: is_valid_identifier_def list_all_iff split: if_splits)

lemma takeWhile_stops:
  "\<forall>x \<in> set xs. P x \<Longrightarrow> ys = [] \<or> \<not> P (hd ys) \<Longrightarrow> takeWhile P (xs @ ys) = xs"
  by (cases ys) (simp_all add: takeWhile_tail)

lemma append_identifiers_head:
  "append_identifiers c ids = [] \<or> hd (append_identifiers c ids) = c"
  by (cases ids) simp_all

lemma append_identifiers_empty: "(append_identifiers c ids = []) = (ids = [])"
  by (cases ids) simp_all

lemma parse_prerelease_ids_append_identifiers:
  "\<forall>ident \<in> set ids. \<not> bad_prerelease_id ident \<Longrightarrow>
   parse_prerelease_ids (append_identifiers c ids) acc = Inr (acc @ ids)"
proof (induction ids arbitrary: c acc)
  case Nil
  then show ?case by (subst parse_prerelease_ids.simps) simp
next
  case (Cons ident ids)
  let ?rest = "append_identifiers CHR ''.'' ids"
  from Cons.prems have ok: "\<not> bad_prerelease_id ident"
    and oks: "\<forall>ident \<in> set ids. \<not> bad_prerelease_id ident" by simp_all
  from ok have valid: "is_valid_identifier ident" by (simp add: bad_prerelease_id_def)
  then have chars: "\<forall>x \<in> set ident. x \<noteq> CHR ''.''" using valid_identifier_chars by blast
  have take: "takeWhile (\<lambda>x. x \<noteq> CHR ''.'') (ident @ ?rest) = ident"
    using chars append_identifiers_head [of "CHR ''.''" ids] by (intro takeWhile_stops) auto
  have "parse_prerelease_ids (append_identifiers c (ident # ids)) acc =
        parse_prerelease_ids ?rest (acc @ [ident])"
    using ok valid
    by (subst parse_prerelease_ids.simps) (auto simp: take Let_def bad_prerelease_id_def)
  also have "\<dots> = Inr ((acc @ [ident]) @ ids)"
    by (rule Cons.IH [OF oks])
  finally show ?case by simp
qed

lemma parse_build_ids_append_identifiers:
  "\<forall>ident \<in> set ids. is_valid_identifier ident \<Longrightarrow>
   parse_build_ids (append_identifiers c ids) acc = Inr (acc @ ids)"
proof (induction ids arbitrary: c acc)
  case Nil
  then show ?case by (subst parse_build_ids.simps) simp
next
  case (Cons ident ids)
  let ?rest = "append_identifiers CHR ''.'' ids"
  from Cons.prems have valid: "is_valid_identifier ident"
    and oks: "\<forall>ident \<in> set ids. is_valid_identifier ident" by simp_all
  then have chars: "\<forall>x \<in> set ident. x \<noteq> CHR ''.''" using valid_identifier_chars by blast
  have take: "takeWhile (\<lambda>x. x \<noteq> CHR ''.'') (ident @ ?rest) = ident"
    using chars append_identifiers_head [of "CHR ''.''" ids] by (intro takeWhile_stops) auto
  have "parse_build_ids (append_identifiers c (ident # ids)) acc =
        parse_build_ids ?rest (acc @ [ident])"
    using valid
    by (subst parse_build_ids.simps) (simp add: take Let_def)
  also have "\<dots> = Inr ((acc @ [ident]) @ ids)"
    by (rule Cons.IH [OF oks])
  finally show ?case by simp
qed

lemma append_identifiers_no_plus:
  "c \<noteq> CHR ''+'' \<Longrightarrow> \<forall>ident \<in> set ids. is_valid_identifier ident \<Longrightarrow>
   \<forall>x \<in> set (append_identifiers c ids). x \<noteq> CHR ''+''"
proof (induction ids arbitrary: c)
  case Nil
  then show ?case by simp
next
  case (Cons ident ids)
  then have "\<forall>x \<in> set ident. x \<noteq> CHR ''+''" using valid_identifier_chars by auto
  moreover have "\<forall>x \<in> set (append_identifiers CHR ''.'' ids). x \<noteq> CHR ''+''"
    using Cons.IH [of "CHR ''.''"] Cons.prems(2) by simp
  ultimately show ?case using Cons.prems(1) by auto
qed

lemma parse_prerelease_rendered:
  assumes pre: "\<forall>ident \<in> set pre. \<not> bad_prerelease_id ident"
    and build: "\<forall>ident \<in> set build. is_valid_identifier ident"
  shows "parse_prerelease (append_identifiers CHR ''-'' pre @ append_identifiers CHR ''+'' build)
           = Inr (pre, append_identifiers CHR ''+'' build)"
proof (cases pre)
  case Nil
  then show ?thesis
    using append_identifiers_head [of "CHR ''+''" build]
    by (auto simp: parse_prerelease_def)
next
  case (Cons ident ids)
  let ?P = "append_identifiers CHR ''-'' pre"
  let ?B = "append_identifiers CHR ''+'' build"
  from pre have valid: "\<forall>ident \<in> set pre. is_valid_identifier ident"
    by (auto simp: bad_prerelease_id_def)
  have starts: "?P @ ?B \<noteq> [] \<and> hd (?P @ ?B) = CHR ''-''"
    using Cons by simp
  have ne: "pre \<noteq> []" using Cons by simp
  have take: "takeWhile (\<lambda>c. c \<noteq> CHR ''+'') (?P @ ?B) = ?P"
    using append_identifiers_no_plus [OF _ valid, of "CHR ''-''"]
      append_identifiers_head [of "CHR ''+''" build]
    by (intro takeWhile_stops) auto
  have ids: "parse_prerelease_ids ?P [] = Inr pre"
    using parse_prerelease_ids_append_identifiers [OF pre, of "CHR ''-''" "[]"] by simp
  show ?thesis
    using starts ne
    by (simp add: parse_prerelease_def take ids Let_def)
qed

lemma parse_build_rendered:
  assumes build: "\<forall>ident \<in> set build. is_valid_identifier ident"
  shows "parse_build (append_identifiers CHR ''+'' build) = Inr build"
proof (cases build)
  case Nil
  then show ?thesis by (simp add: parse_build_def)
next
  case (Cons ident ids)
  have "parse_build_ids (append_identifiers CHR ''+'' build) [] = Inr build"
    using parse_build_ids_append_identifiers [OF build, of "CHR ''+''" "[]"] by simp
  moreover have "append_identifiers CHR ''+'' build \<noteq> [] \<and>
                 hd (append_identifiers CHR ''+'' build) = CHR ''+''"
    using Cons by simp
  moreover have "build \<noteq> []" using Cons by simp
  ultimately show ?thesis
    by (simp add: parse_build_def)
qed

lemma digits_no_separator:
  "list_all isdigit xs \<Longrightarrow>
   \<forall>x \<in> set xs. x \<noteq> CHR ''.'' \<and> x \<noteq> CHR ''+'' \<and> x \<noteq> CHR ''-''"
  unfolding list_all_iff using isdigit_not_separator by blast

lemma digits_no_sign:
  "list_all isdigit xs \<Longrightarrow> \<forall>x \<in> set xs. x \<noteq> CHR ''+'' \<and> x \<noteq> CHR ''-''"
  using digits_no_separator by blast

lemma digits_no_dot: "list_all isdigit xs \<Longrightarrow> CHR ''.'' \<notin> set xs"
  using digits_no_separator by blast

lemma strtoul_format_lu:
  "0 \<le> n \<Longrightarrow> n \<le> ULONG_MAX \<Longrightarrow> strtoul (format_lu n) = n"
  by (simp add: strtoul_def decimal_value_format_lu)

lemma uint_ulong: "0 \<le> uint (w :: ulong) \<and> uint w \<le> ULONG_MAX"
proof -
  have "uint w < 2 ^ 64" using uint_lt2p [of w] by simp
  then show ?thesis by (simp add: ULONG_MAX_def)
qed

lemma core_take_all:
  assumes "list_all isdigit a" "list_all isdigit b" "list_all isdigit c"
    and t: "t = [] \<or> hd t = CHR ''-'' \<or> hd t = CHR ''+''"
  shows "takeWhile (\<lambda>x. x \<noteq> CHR ''+'' \<and> x \<noteq> CHR ''-'') ((a @ ''.'' @ b @ ''.'' @ c) @ t)
           = a @ ''.'' @ b @ ''.'' @ c"
proof (rule takeWhile_stops)
  show "\<forall>x \<in> set (a @ ''.'' @ b @ ''.'' @ c). x \<noteq> CHR ''+'' \<and> x \<noteq> CHR ''-''"
    using assms(1-3) [THEN digits_no_sign] by (simp add: ball_Un)
  show "t = [] \<or> \<not> (hd t \<noteq> CHR ''+'' \<and> hd t \<noteq> CHR ''-'')"
    using t by blast
qed

lemma core_count_dots:
  assumes "list_all isdigit a" "list_all isdigit b" "list_all isdigit c"
  shows "count_list (a @ ''.'' @ b @ ''.'' @ c) CHR ''.'' = 2"
  using assms [THEN digits_no_dot] by simp

lemma take_to_dot:
  assumes "list_all isdigit a"
  shows "takeWhile (\<lambda>x. x \<noteq> CHR ''.'') (a @ ''.'' @ r) = a"
proof (rule takeWhile_stops)
  show "\<forall>x \<in> set a. x \<noteq> CHR ''.''"
    using assms [THEN digits_no_dot] by blast
  show "''.'' @ r = [] \<or> \<not> hd (''.'' @ r) \<noteq> CHR ''.''" by simp
qed

lemma tail_starts_with_separator:
  "append_identifiers CHR ''-'' pre @ append_identifiers CHR ''+'' build = [] \<or>
   hd (append_identifiers CHR ''-'' pre @ append_identifiers CHR ''+'' build) = CHR ''-'' \<or>
   hd (append_identifiers CHR ''-'' pre @ append_identifiers CHR ''+'' build) = CHR ''+''"
  by (cases pre; cases build) simp_all

text \<open>Parsing the text of a version: the core, then the two identifier sections.\<close>

lemma parse_rendered:
  assumes x: "0 \<le> x" "x < ULONG_MAX" and y: "0 \<le> y" "y < ULONG_MAX"
    and z: "0 \<le> z" "z < ULONG_MAX"
    and pre: "\<forall>ident \<in> set pre. \<not> bad_prerelease_id ident"
    and build: "\<forall>ident \<in> set build. is_valid_identifier ident"
  shows "parse ((format_lu x @ ''.'' @ format_lu y @ ''.'' @ format_lu z) @
                append_identifiers CHR ''-'' pre @ append_identifiers CHR ''+'' build) =
         Inr \<lparr>major = of_int x, minor = of_int y, patch = of_int z, prerelease = pre,
              build_metadata = build, valid = True\<rparr>"
proof -
  let ?a = "format_lu x" and ?b = "format_lu y" and ?c = "format_lu z"
  let ?core = "?a @ ''.'' @ ?b @ ''.'' @ ?c"
  let ?t = "append_identifiers CHR ''-'' pre @ append_identifiers CHR ''+'' build"
  have da: "list_all isdigit ?a" and db: "list_all isdigit ?b" and dc: "list_all isdigit ?c"
    using x y z by (simp_all add: format_lu_digits)
  have core: "takeWhile (\<lambda>c. c \<noteq> CHR ''+'' \<and> c \<noteq> CHR ''-'') (?core @ ?t) = ?core"
    by (rule core_take_all [OF da db dc tail_starts_with_separator])
  have dots: "count_list ?core CHR ''.'' = 2"
    by (rule core_count_dots [OF da db dc])
  have major_str: "takeWhile (\<lambda>c. c \<noteq> CHR ''.'') ?core = ?a"
    by (rule take_to_dot [OF da])
  have after_major: "drop (length ?a + 1) ?core = ?b @ ''.'' @ ?c"
    by simp
  have minor_str: "takeWhile (\<lambda>c. c \<noteq> CHR ''.'') (?b @ ''.'' @ ?c) = ?b"
    by (rule take_to_dot [OF db])
  have patch_str: "drop (length ?b + 1) (?b @ ''.'' @ ?c) = ?c"
    by simp
  have rest: "drop (length ?core) (?core @ ?t) = ?t"
    by simp
  have numeric: "is_numeric ?a" "is_numeric ?b" "is_numeric ?c"
    using x y z format_lu_numeric by simp_all
  have zeros: "\<not> (1 < length ?a \<and> hd ?a = CHR ''0'')" "\<not> (1 < length ?b \<and> hd ?b = CHR ''0'')"
    "\<not> (1 < length ?c \<and> hd ?c = CHR ''0'')"
    using x y z format_lu_numeric by simp_all
  have parsed: "strtoul ?a = x" "strtoul ?b = y" "strtoul ?c = z"
    using x y z by (simp_all add: strtoul_format_lu)
  have in_range: "x \<noteq> ULONG_MAX" "y \<noteq> ULONG_MAX" "z \<noteq> ULONG_MAX"
    using x y z by simp_all
  have p: "parse_prerelease ?t = Inr (pre, append_identifiers CHR ''+'' build)"
    by (rule parse_prerelease_rendered [OF pre build])
  have b: "parse_build (append_identifiers CHR ''+'' build) = Inr build"
    by (rule parse_build_rendered [OF build])
  have nonempty: "?core @ ?t \<noteq> []"
    by simp
  show ?thesis
    unfolding parse_def Let_def core rest dots major_str after_major minor_str patch_str
    using nonempty numeric zeros in_range
    by (simp add: parsed p b)
qed

text \<open>
  Every valid version satisfies the invariant: \<open>from_components\<close> checks the identifiers
  it is given, and the loops of \<open>parse\<close> check each identifier they store.
\<close>

lemma from_components_invariant:
  "is_valid (from_components ma mi pa pre build) \<Longrightarrow>
   Semver_invariant (from_components ma mi pa pre build) \<and>
   from_components ma mi pa pre build =
     \<lparr>major = ma, minor = mi, patch = pa, prerelease = pre, build_metadata = build,
      valid = True\<rparr>"
  by (auto simp: from_components_def is_valid_def Semver_invariant_def Semver_default_def
      list_ex_iff list_all_iff split: if_splits)

lemma parse_prerelease_ids_checked:
  "parse_prerelease_ids s acc = Inr ids \<Longrightarrow> \<not> list_ex bad_prerelease_id acc \<Longrightarrow>
   \<not> list_ex bad_prerelease_id ids"
proof (induction s acc rule: parse_prerelease_ids.induct)
  case (1 prerelease_str acc)
  show ?case
  proof (cases "prerelease_str = []")
    case True
    with "1.prems" show ?thesis
      by (subst (asm) parse_prerelease_ids.simps) simp
  next
    case False
    define rest where "rest = tl prerelease_str"
    define ident where "ident = takeWhile (\<lambda>c. c \<noteq> CHR ''.'') rest"
    have unfolded: "parse_prerelease_ids prerelease_str acc =
        (if \<not> is_valid_identifier ident then Inl ''Invalid pre-release identifier''
         else if is_numeric ident \<and> length ident > 1 \<and> hd ident = CHR ''0''
           then Inl ''Numeric pre-release identifiers must not have leading zeros''
         else parse_prerelease_ids (drop (length ident) rest) (acc @ [ident]))"
      using False by (subst parse_prerelease_ids.simps) (simp add: Let_def rest_def ident_def)
    from "1.prems"(1) have valid: "is_valid_identifier ident"
      and zero: "\<not> (is_numeric ident \<and> 1 < length ident \<and> hd ident = CHR ''0'')"
      and rec: "parse_prerelease_ids (drop (length ident) rest) (acc @ [ident]) = Inr ids"
      unfolding unfolded by (auto split: if_splits)
    have "\<not> bad_prerelease_id ident"
      using valid zero by (simp add: bad_prerelease_id_def)
    then have "\<not> list_ex bad_prerelease_id (acc @ [ident])"
      using "1.prems"(2) by simp
    with "1.IH" [OF False rest_def ident_def _ zero rec] valid
    show ?thesis by simp
  qed
qed

lemma parse_build_ids_checked:
  "parse_build_ids s acc = Inr ids \<Longrightarrow> list_all is_valid_identifier acc \<Longrightarrow>
   list_all is_valid_identifier ids"
proof (induction s acc rule: parse_build_ids.induct)
  case (1 build_str acc)
  show ?case
  proof (cases "build_str = []")
    case True
    with "1.prems" show ?thesis
      by (subst (asm) parse_build_ids.simps) simp
  next
    case False
    define rest where "rest = tl build_str"
    define ident where "ident = takeWhile (\<lambda>c. c \<noteq> CHR ''.'') rest"
    have unfolded: "parse_build_ids build_str acc =
        (if \<not> is_valid_identifier ident then Inl ''Invalid build metadata identifier''
         else parse_build_ids (drop (length ident) rest) (acc @ [ident]))"
      using False by (subst parse_build_ids.simps) (simp add: Let_def rest_def ident_def)
    from "1.prems"(1) have valid: "is_valid_identifier ident"
      and rec: "parse_build_ids (drop (length ident) rest) (acc @ [ident]) = Inr ids"
      unfolding unfolded by (auto split: if_splits)
    have "list_all is_valid_identifier (acc @ [ident])"
      using "1.prems"(2) valid by simp
    with "1.IH" [OF False rest_def ident_def _ rec] valid
    show ?thesis by simp
  qed
qed

lemma parse_invariant: "parse s = Inr v \<Longrightarrow> Semver_invariant v"
proof -
  assume p: "parse s = Inr v"
  then obtain s1 s2 pre build where
    pre: "parse_prerelease s1 = Inr (pre, s2)" and build: "parse_build s2 = Inr build"
    and v: "valid v" "prerelease v = pre" "build_metadata v = build"
    by (auto simp: parse_def Let_def split: if_splits sum.splits prod.splits)
  have "\<not> list_ex bad_prerelease_id pre"
    using pre parse_prerelease_ids_checked [of _ "[]" pre]
    by (auto simp: parse_prerelease_def Let_def split: if_splits sum.splits)
  moreover have "list_all is_valid_identifier build"
    using build parse_build_ids_checked [of _ "[]" build]
    by (auto simp: parse_build_def split: if_splits sum.splits)
  ultimately show ?thesis using v by (simp add: Semver_invariant_def)
qed

lemma from_string_invariant: "is_valid (from_string s) \<Longrightarrow> Semver_invariant (from_string s)"
  by (cases "parse s")
     (simp_all add: from_string_def is_valid_def Semver_default_def parse_invariant)

text \<open>
  Claim C8 says that every valid version is read back from its text. \<open>to_string\<close> writes
  the core \<open>MAJOR.MINOR.PATCH\<close> into a buffer of 33 bytes, counted for three numbers of
  ten digits, while an \<^verbatim>\<open>unsigned long\<close> of 64 bits has up to twenty. The first version
  below parses and has a core of 33 characters: its text is cut after 32 and ends in the
  terminating zero byte, and does not parse. The second has a core of 34 characters, and
  \<open>to_string\<close> reads past the end of the buffer.
\<close>

theorem round_trip_fails_for_long_core:
  "is_valid (from_string ''12345678901234567890.1234567890.0'') \<and>
   to_string (from_string ''12345678901234567890.1234567890.0'') =
     Inr (''12345678901234567890.1234567890.'' @ [char_of (0::int)]) \<and>
   \<not> is_valid (from_string (''12345678901234567890.1234567890.'' @ [char_of (0::int)])) \<and>
   is_valid (from_string ''12345678901234567890.12345678901.0'') \<and>
   to_string (from_string ''12345678901234567890.12345678901.0'') = Inl Buffer_overread"
  by code_simp

theorem round_trip_fails_for_long_core_witness:
  "to_string (from_string ''12345678901234567890.12345678901.0'')
     \<noteq> Inr ''12345678901234567890.12345678901.0''"
  using round_trip_fails_for_long_core by simp

text \<open>
  A second difference between the two directions: \<open>from_components\<close> accepts every
  \<^verbatim>\<open>unsigned long\<close>, but \<open>parse\<close> rejects a component whose \<^verbatim>\<open>strtoul\<close> value is
  \<^verbatim>\<open>ULONG_MAX\<close> as out of range. The valid version with major \<^verbatim>\<open>ULONG_MAX\<close> is written
  as \<open>18446744073709551615.0.0\<close>, which does not parse.
\<close>

lemma round_trip_fails_at_ULONG_MAX:
  "is_valid (from_components 18446744073709551615 0 0 [] []) \<and>
   to_string (from_components 18446744073709551615 0 0 [] []) = Inr ''18446744073709551615.0.0'' \<and>
   \<not> is_valid (from_string ''18446744073709551615.0.0'')"
  by code_simp

text \<open>The round trip for every version that satisfies the invariant.\<close>

lemma round_trip_of_invariant:
  "Semver_invariant v \<Longrightarrow>
   uint (major v) \<noteq> ULONG_MAX \<Longrightarrow> uint (minor v) \<noteq> ULONG_MAX \<Longrightarrow>
   uint (patch v) \<noteq> ULONG_MAX \<Longrightarrow> length (core_text v) \<le> 32 \<Longrightarrow>
   \<exists>s. to_string v = Inr s \<and> from_string s = v \<and> is_valid (from_string s)"
proof -
  assume inv: "Semver_invariant v"
    and ma: "uint (major v) \<noteq> ULONG_MAX" and mi: "uint (minor v) \<noteq> ULONG_MAX"
    and pa: "uint (patch v) \<noteq> ULONG_MAX" and fits: "length (core_text v) \<le> 32"
  let ?s = "core_text v @ append_identifiers CHR ''-'' (prerelease v) @
            append_identifiers CHR ''+'' (build_metadata v)"
  from inv have valid: "valid v"
    and pre: "\<forall>ident \<in> set (prerelease v). \<not> bad_prerelease_id ident"
    and build: "\<forall>ident \<in> set (build_metadata v). is_valid_identifier ident"
    by (simp_all add: Semver_invariant_def list_ex_iff list_all_iff)
  have rendered: "to_string v = Inr ?s"
    using valid fits by (simp add: to_string_def to_string_core_def core_text_def Let_def)
  have bounds: "0 \<le> uint (major v)" "uint (major v) < ULONG_MAX"
    "0 \<le> uint (minor v)" "uint (minor v) < ULONG_MAX"
    "0 \<le> uint (patch v)" "uint (patch v) < ULONG_MAX"
    using ma mi pa uint_ulong [of "major v"] uint_ulong [of "minor v"] uint_ulong [of "patch v"]
    by simp_all
  have "parse ?s = Inr \<lparr>major = of_int (uint (major v)), minor = of_int (uint (minor v)),
                         patch = of_int (uint (patch v)), prerelease = prerelease v,
                         build_metadata = build_metadata v, valid = True\<rparr>"
    unfolding core_text_def by (rule parse_rendered [OF bounds pre build])
  also have "\<lparr>major = of_int (uint (major v)), minor = of_int (uint (minor v)),
                         patch = of_int (uint (patch v)), prerelease = prerelease v,
                         build_metadata = build_metadata v, valid = True\<rparr> = v"
    using valid by simp
  finally have "from_string ?s = v"
    by (simp add: from_string_def)
  with rendered valid show ?thesis
    by (auto simp: is_valid_def)
qed


text \<open>
  Where the core fits the buffer and no component is \<^verbatim>\<open>ULONG_MAX\<close>, the round trip
  holds: for every such valid version, made by \<open>from_string\<close> or by \<open>from_components\<close>,
  \<open>to_string\<close> returns a text, and \<open>from_string\<close> of that text is a valid version equal
  to the original in major, minor, patch, pre-release identifiers and build identifiers.
\<close>

lemma round_trip_within_buffer:
  "v = from_string str \<or> v = from_components ma mi pa pre build \<Longrightarrow>
   is_valid v \<Longrightarrow>
   uint (major v) \<noteq> ULONG_MAX \<Longrightarrow> uint (minor v) \<noteq> ULONG_MAX \<Longrightarrow>
   uint (patch v) \<noteq> ULONG_MAX \<Longrightarrow> length (core_text v) \<le> 32 \<Longrightarrow>
   \<exists>s. to_string v = Inr s \<and> from_string s = v \<and> is_valid (from_string s)"
proof -
  assume made: "v = from_string str \<or> v = from_components ma mi pa pre build"
    and valid: "is_valid v"
  assume bounds: "uint (major v) \<noteq> ULONG_MAX" "uint (minor v) \<noteq> ULONG_MAX"
    "uint (patch v) \<noteq> ULONG_MAX" "length (core_text v) \<le> 32"
  from made valid have "Semver_invariant v"
    using from_string_invariant [of str] from_components_invariant [of ma mi pa pre build]
    by auto
  from round_trip_of_invariant [OF this bounds] show ?thesis .
qed

lemma round_trip_example:
  "Semver_invariant (from_components 1 2 3 [''alpha'', ''1''] [''build'', ''123'']) \<and>
   to_string (from_components 1 2 3 [''alpha'', ''1''] [''build'', ''123''])
     = Inr ''1.2.3-alpha.1+build.123'' \<and>
   from_string ''1.2.3-alpha.1+build.123''
     = from_components 1 2 3 [''alpha'', ''1''] [''build'', ''123'']"
proof -
  let ?v = "from_components 1 2 3 [''alpha'', ''1''] [''build'', ''123'']"
  have inv: "Semver_invariant ?v" by code_simp
  have made: "?v = from_string [] \<or> ?v = ?v" by simp
  have valid: "is_valid ?v" by code_simp
  have r: "uint (major ?v) \<noteq> ULONG_MAX" "uint (minor ?v) \<noteq> ULONG_MAX"
    "uint (patch ?v) \<noteq> ULONG_MAX" "length (core_text ?v) \<le> 32"
    by code_simp+
  have s: "to_string ?v = Inr ''1.2.3-alpha.1+build.123''" by code_simp
  from round_trip_within_buffer [OF made valid r] s inv show ?thesis by auto
qed


end
